theory Spec2Isabelle
  imports Complex_Main
begin

section \<open>Data model of the shape editor hook (KonvaApp.ts)\<close>

text \<open>
  The hook \<open>useKonvaApp\<close> keeps four pieces of React state (\<open>shapes\<close>, \<open>groups\<close>,
  \<open>selectedIds\<close>, \<open>hoveredId\<close>) and a tree of Konva nodes that its callbacks mutate in
  place. Each callback is embedded as a function of the state of the render it closes
  over; the value it returns is the state of the next render, with every queued
  \<open>setShapes\<close>/\<open>setGroups\<close>/\<open>setSelectedIds\<close> applied, together with the text of the
  \<open>alert\<close> it raised, if any. JavaScript numbers are modelled as real numbers.
  The layer is taken to be initialised (\<open>layerRef.current\<close> is not null).
\<close>

datatype shape_type = Rectangle | Circle

record Point =
  px :: real
  py :: real

text \<open>
  The attributes of a \<open>Konva.Shape\<close> that the hook reads or writes. \<open>node_parent\<close> is the
  Konva parent of the wrapper \<open>shape.group\<close>: \<open>None\<close> for the layer, \<open>Some g\<close> for the
  \<open>Konva.Group\<close> constructed with \<open>id: g\<close>. The wrapper itself, the layer and the stage
  are never moved, rotated or scaled. \<open>node_width\<close>/\<open>node_height\<close> are read for rectangles
  only, \<open>node_radius\<close> for circles only.
\<close>

record shape_node =
  node_x :: real
  node_y :: real
  node_rotation :: real
  node_draggable :: bool
  node_width :: real
  node_height :: real
  node_radius :: real
  node_parent :: "string option"

record ShapeData =
  id_s :: string
  node_s :: shape_node
  type_s :: shape_type
  groupId :: "string option"

text \<open>The attributes of the \<open>Konva.Group\<close> of a group and of its background rectangle.\<close>

record group_node =
  gnode_x :: real
  gnode_y :: real
  gnode_rotation :: real
  gnode_scaleX :: real
  gnode_scaleY :: real

record rect_node =
  bg_x :: real
  bg_y :: real
  bg_width :: real
  bg_height :: real

record GroupData =
  id_g :: string
  node_g :: group_node
  backgroundNode :: rect_node

record app_state =
  shapes :: "ShapeData list"
  groups :: "GroupData list"
  selectedIds :: "string list"
  hoveredId :: "string option"

definition initial_state :: app_state where
  "initial_state = \<lparr>shapes = [], groups = [], selectedIds = [], hoveredId = None\<rparr>"

subsection \<open>JavaScript and Konva primitives\<close>

text \<open>Truthiness of a \<open>string | null\<close>: null and the empty string are falsy.\<close>

definition truthy :: "string option \<Rightarrow> bool" where
  "truthy g = (case g of None \<Rightarrow> False | Some s \<Rightarrow> s \<noteq> [])"

text \<open>\<open>Array.prototype.findIndex\<close>: the first index whose element satisfies the test.\<close>

fun findIndex :: "('a \<Rightarrow> bool) \<Rightarrow> 'a list \<Rightarrow> nat option" where
  "findIndex P [] = None"
| "findIndex P (a # as) =
     (if P a then Some 0 else (case findIndex P as of None \<Rightarrow> None | Some i \<Rightarrow> Some (Suc i)))"

text \<open>\<open>Number.MAX_VALUE\<close> and \<open>Number.MIN_VALUE\<close> of IEEE 754 double precision: the largest
  finite number and the smallest positive number.\<close>

definition MAX_VALUE :: real where
  "MAX_VALUE = (2 ^ 53 - 1) * 2 ^ 971"

definition MIN_VALUE :: real where
  "MIN_VALUE = 1 / 2 ^ 1074"

text \<open>The template literal \<open>`${n}`\<close> of a non-negative integer: its decimal digits.\<close>

definition digit_char :: "nat \<Rightarrow> char" where
  "digit_char d = ''0123456789'' ! d"

function string_of_nat :: "nat \<Rightarrow> string" where
  "string_of_nat n =
     (if n < 10 then [digit_char n]
      else string_of_nat (n div 10) @ [digit_char (n mod 10)])"
  by pat_completeness auto
termination
  by (relation "measure (\<lambda>n. n)") auto

declare string_of_nat.simps [simp del]

text \<open>
  Konva's forward transform of a group node: a point of the group's local space is
  scaled, rotated by the group's rotation (in degrees) and translated by its position.
\<close>

definition radians :: "real \<Rightarrow> real" where
  "radians deg = deg * pi / 180"

definition group_to_abs :: "group_node \<Rightarrow> Point \<Rightarrow> Point" where
  "group_to_abs g p =
     (let a = radians (gnode_rotation g);
          sx = gnode_scaleX g * px p;
          sy = gnode_scaleY g * py p
      in \<lparr>px = gnode_x g + (sx * cos a - sy * sin a),
          py = gnode_y g + (sx * sin a + sy * cos a)\<rparr>)"

definition find_group :: "GroupData list \<Rightarrow> string \<Rightarrow> GroupData option" where
  "find_group gs i = find (\<lambda>g. id_g g = i) gs"

text \<open>The Konva parent group of a shape node, if it has one that is alive.\<close>

definition parent_group :: "GroupData list \<Rightarrow> shape_node \<Rightarrow> GroupData option" where
  "parent_group gs n = (case node_parent n of None \<Rightarrow> None | Some g \<Rightarrow> find_group gs g)"

definition position :: "shape_node \<Rightarrow> Point" where
  "position n = \<lparr>px = node_x n, py = node_y n\<rparr>"

text \<open>\<open>node.getAbsolutePosition()\<close>: the node's position pushed through its parent's
  transform.\<close>

definition getAbsolutePosition :: "GroupData list \<Rightarrow> shape_node \<Rightarrow> Point" where
  "getAbsolutePosition gs n =
     (case parent_group gs n of
        None \<Rightarrow> position n
      | Some g \<Rightarrow> group_to_abs (node_g g) (position n))"

text \<open>\<open>node.getAbsoluteRotation()\<close>: the sum of the rotations on the path to the stage.\<close>

definition getAbsoluteRotation :: "GroupData list \<Rightarrow> shape_node \<Rightarrow> real" where
  "getAbsoluteRotation gs n =
     (case parent_group gs n of
        None \<Rightarrow> node_rotation n
      | Some g \<Rightarrow> node_rotation n + gnode_rotation (node_g g))"

text \<open>A group node hangs off the layer: its absolute position and rotation are its own.\<close>

definition group_getAbsolutePosition :: "group_node \<Rightarrow> Point" where
  "group_getAbsolutePosition g = \<lparr>px = gnode_x g, py = gnode_y g\<rparr>"

definition group_getAbsoluteRotation :: "group_node \<Rightarrow> real" where
  "group_getAbsoluteRotation g = gnode_rotation g"

subsection \<open>Selection: handleShapeClick and the stage click\<close>

text \<open>The toggle of a shift-click: remove the id if it is selected, append it otherwise.\<close>

definition toggle :: "string \<Rightarrow> string list \<Rightarrow> string list" where
  "toggle i prev = (if i \<in> set prev then filter (\<lambda>selectedId. selectedId \<noteq> i) prev else prev @ [i])"

definition handleShapeClick :: "string \<Rightarrow> bool \<Rightarrow> app_state \<Rightarrow> app_state" where
  "handleShapeClick i isShiftKey st =
     (case find (\<lambda>s. id_s s = i) (shapes st) of
        Some shape \<Rightarrow>
          (if truthy (groupId shape) then
             (if \<not> isShiftKey then st\<lparr>selectedIds := [the (groupId shape)]\<rparr>
              else st\<lparr>selectedIds := toggle (the (groupId shape)) (selectedIds st)\<rparr>)
           else if isShiftKey then st\<lparr>selectedIds := toggle i (selectedIds st)\<rparr>
           else st\<lparr>selectedIds := [i]\<rparr>)
      | None \<Rightarrow>
          (if isShiftKey then st\<lparr>selectedIds := toggle i (selectedIds st)\<rparr>
           else st\<lparr>selectedIds := [i]\<rparr>))"

text \<open>
  The click handler of a node is registered once, when the node is made
  (\<open>rect.on('click', ...)\<close> in \<open>addRectangle\<close>, and likewise for circles and for groups),
  and it calls the \<open>handleShapeClick\<close> of the render in which the node was made: it reads
  the \<open>shapes\<close> of that render, here \<open>seen\<close>, while the functional update
  \<open>setSelectedIds(prev => ...)\<close> applies to the selection of the moment of the click.
\<close>

definition registered_click :: "ShapeData list \<Rightarrow> string \<Rightarrow> bool \<Rightarrow> app_state \<Rightarrow> app_state" where
  "registered_click seen i isShiftKey st =
     st\<lparr>selectedIds := selectedIds (handleShapeClick i isShiftKey (st\<lparr>shapes := seen\<rparr>))\<rparr>"

definition stageClick :: "app_state \<Rightarrow> app_state" where
  "stageClick st = st\<lparr>selectedIds := []\<rparr>"

subsection \<open>addRectangle, addCircle, clearAll\<close>

text \<open>\<open>now\<close> is the value of \<open>Date.now()\<close>; \<open>rx\<close> and \<open>ry\<close> are the random coordinates.\<close>

definition addRectangle :: "nat \<Rightarrow> real \<Rightarrow> real \<Rightarrow> app_state \<Rightarrow> app_state" where
  "addRectangle now rx ry st =
     st\<lparr>shapes := shapes st @
        [\<lparr>id_s = ''rect-'' @ string_of_nat now,
          node_s = \<lparr>node_x = rx, node_y = ry, node_rotation = 0, node_draggable = True,
                    node_width = 100, node_height = 50, node_radius = 0, node_parent = None\<rparr>,
          type_s = Rectangle,
          groupId = None\<rparr>]\<rparr>"

definition addCircle :: "nat \<Rightarrow> real \<Rightarrow> real \<Rightarrow> app_state \<Rightarrow> app_state" where
  "addCircle now rx ry st =
     st\<lparr>shapes := shapes st @
        [\<lparr>id_s = ''circle-'' @ string_of_nat now,
          node_s = \<lparr>node_x = rx, node_y = ry, node_rotation = 0, node_draggable = True,
                    node_width = 0, node_height = 0, node_radius = 50, node_parent = None\<rparr>,
          type_s = Circle,
          groupId = None\<rparr>]\<rparr>"

definition clearAll :: "app_state \<Rightarrow> app_state" where
  "clearAll st = \<lparr>shapes = [], groups = [], selectedIds = [], hoveredId = None\<rparr>"

subsection \<open>updateGroupBoundingBox\<close>

text \<open>The points one shape pushes onto \<open>points\<close>: the body of the first \<open>forEach\<close>.\<close>

definition outlinePoints :: "ShapeData \<Rightarrow> Point list" where
  "outlinePoints shape =
     (let pos = position (node_s shape) in
      case type_s shape of
        Rectangle \<Rightarrow>
          (let width = node_width (node_s shape);
               height = node_height (node_s shape);
               padding = 10
           in [\<lparr>px = px pos - width / 2 - padding, py = py pos - height / 2 - padding\<rparr>,
               \<lparr>px = px pos + width / 2 + padding, py = py pos - height / 2 - padding\<rparr>,
               \<lparr>px = px pos - width / 2 - padding, py = py pos + height / 2 + padding\<rparr>,
               \<lparr>px = px pos + width / 2 + padding, py = py pos + height / 2 + padding\<rparr>])
      | Circle \<Rightarrow>
          (let radius = node_radius (node_s shape);
               padding = 10;
               totalRadius = radius + padding;
               diagonalDist = totalRadius * 0.7071
           in [\<lparr>px = px pos - totalRadius, py = py pos\<rparr>,
               \<lparr>px = px pos + totalRadius, py = py pos\<rparr>,
               \<lparr>px = px pos, py = py pos - totalRadius\<rparr>,
               \<lparr>px = px pos, py = py pos + totalRadius\<rparr>,
               \<lparr>px = px pos - diagonalDist, py = py pos - diagonalDist\<rparr>,
               \<lparr>px = px pos + diagonalDist, py = py pos - diagonalDist\<rparr>,
               \<lparr>px = px pos - diagonalDist, py = py pos + diagonalDist\<rparr>,
               \<lparr>px = px pos + diagonalDist, py = py pos + diagonalDist\<rparr>]))"

text \<open>The running bounds \<open>(minX, minY, maxX, maxY)\<close> and the second \<open>forEach\<close>.\<close>

record bounds =
  minX :: real
  minY :: real
  maxX :: real
  maxY :: real

definition initial_bounds :: bounds where
  "initial_bounds = \<lparr>minX = MAX_VALUE, minY = MAX_VALUE, maxX = MIN_VALUE, maxY = MIN_VALUE\<rparr>"

definition extend_bounds :: "bounds \<Rightarrow> Point \<Rightarrow> bounds" where
  "extend_bounds b point =
     \<lparr>minX = min (minX b) (px point), minY = min (minY b) (py point),
      maxX = max (maxX b) (px point), maxY = max (maxY b) (py point)\<rparr>"

definition background_of :: "bounds \<Rightarrow> rect_node" where
  "background_of b =
     \<lparr>bg_x = minX b, bg_y = minY b, bg_width = maxX b - minX b, bg_height = maxY b - minY b\<rparr>"

definition updateGroupBoundingBox :: "GroupData \<Rightarrow> ShapeData list \<Rightarrow> GroupData" where
  "updateGroupBoundingBox grp groupShapes =
     (let points = concat (map outlinePoints groupShapes);
          b = foldl extend_bounds initial_bounds points
      in grp\<lparr>backgroundNode := background_of b\<rparr>)"

subsection \<open>addShapesToGroup\<close>

text \<open>
  A \<open>ShapeData\<close> object is identified by its position in \<open>shapes\<close>; the selections below
  are lists of positions. \<open>updatedShapes\<close> starts as a shallow copy of \<open>shapes\<close>: both
  arrays hold the same objects until an entry of \<open>updatedShapes\<close> is replaced by a copy
  with a new \<open>groupId\<close>, and the Konva node of an entry is shared throughout. The loop
  state therefore keeps \<open>updatedShapes\<close> (with the nodes), the \<open>groupId\<close> fields of the
  objects still in \<open>shapes\<close>, and the groups left by the queued \<open>setGroups\<close> filters.
\<close>

record add_loop =
  orig_groupId :: "string option list"
  updatedShapes :: "ShapeData list"
  pending_groups :: "GroupData list"

text \<open>The body of \<open>shapesToUngroup.forEach\<close>: the shape goes back to the layer at its
  absolute position and rotation, and its \<open>groupId\<close> is cleared in place.\<close>

definition release_shape :: "GroupData list \<Rightarrow> ShapeData \<Rightarrow> ShapeData" where
  "release_shape gs s =
     (let globalPos = getAbsolutePosition gs (node_s s);
          globalRotation = getAbsoluteRotation gs (node_s s)
      in s\<lparr>node_s := (node_s s)\<lparr>node_x := px globalPos, node_y := py globalPos,
                                 node_rotation := globalRotation, node_draggable := True,
                                 node_parent := None\<rparr>,
           groupId := None\<rparr>)"

text \<open>
  The first half of the loop body, for the shape at position \<open>k\<close>. The count is taken on
  \<open>shapes\<close>, the objects released are those of \<open>updatedShapes\<close>. An entry of
  \<open>updatedShapes\<close> that still names the old group has not been replaced (a replaced entry
  names the target group), so clearing its \<open>groupId\<close> clears the one seen through
  \<open>shapes\<close> as well.
\<close>

definition remove_from_old_group :: "GroupData list \<Rightarrow> nat \<Rightarrow> add_loop \<Rightarrow> add_loop" where
  "remove_from_old_group gs k L =
     (if truthy (orig_groupId L ! k) then
        (case find_group gs (the (orig_groupId L ! k)) of
           None \<Rightarrow> L
         | Some oldGroup \<Rightarrow>
             (if length (filter (\<lambda>g. g = Some (id_g oldGroup)) (orig_groupId L)) \<le> 2 then
                L\<lparr>orig_groupId :=
                     map2 (\<lambda>og s. if groupId s = Some (id_g oldGroup) then None else og)
                       (orig_groupId L) (updatedShapes L),
                   updatedShapes :=
                     map (\<lambda>s. if groupId s = Some (id_g oldGroup) then release_shape gs s else s)
                       (updatedShapes L),
                   pending_groups :=
                     filter (\<lambda>g. id_g g \<noteq> id_g oldGroup) (pending_groups L)\<rparr>
              else L))
      else L)"

text \<open>The second half: the shape is re-expressed in the target group's space and
  re-parented, and its entry of \<open>updatedShapes\<close> (found by id) is replaced.\<close>

definition set_groupId_by_id :: "string \<Rightarrow> string option \<Rightarrow> ShapeData list \<Rightarrow> ShapeData list" where
  "set_groupId_by_id i g us =
     (case findIndex (\<lambda>s. id_s s = i) us of
        None \<Rightarrow> us
      | Some shapeIndex \<Rightarrow> us[shapeIndex := (us ! shapeIndex)\<lparr>groupId := g\<rparr>])"

definition move_into_group :: "GroupData list \<Rightarrow> GroupData \<Rightarrow> nat \<Rightarrow> add_loop \<Rightarrow> add_loop" where
  "move_into_group gs targetGroup k L =
     (let shape = updatedShapes L ! k;
          globalPos = getAbsolutePosition gs (node_s shape);
          globalRotation = getAbsoluteRotation gs (node_s shape);
          groupPos = group_getAbsolutePosition (node_g targetGroup);
          groupRotation = group_getAbsoluteRotation (node_g targetGroup) * pi / 180;
          dx = px globalPos - px groupPos;
          dy = py globalPos - py groupPos;
          rotatedDx = dx * cos (- groupRotation) - dy * sin (- groupRotation);
          rotatedDy = dx * sin (- groupRotation) + dy * cos (- groupRotation);
          n = (node_s shape)
                \<lparr>node_x := (if groupRotation \<noteq> 0 then rotatedDx else dx),
                 node_y := (if groupRotation \<noteq> 0 then rotatedDy else dy),
                 node_rotation := globalRotation - group_getAbsoluteRotation (node_g targetGroup),
                 node_draggable := False,
                 node_parent := Some (id_g targetGroup)\<rparr>;
          us = (updatedShapes L)[k := shape\<lparr>node_s := n\<rparr>]
      in L\<lparr>updatedShapes := set_groupId_by_id (id_s shape) (Some (id_g targetGroup)) us\<rparr>)"

definition add_step :: "GroupData list \<Rightarrow> GroupData \<Rightarrow> add_loop \<Rightarrow> nat \<Rightarrow> add_loop" where
  "add_step gs targetGroup L k = move_into_group gs targetGroup k (remove_from_old_group gs k L)"

text \<open>The background is a Konva node of the target's \<open>GroupData\<close> object, which is the
  first entry of \<open>groups\<close> with its id: the recomputed rectangle shows there.\<close>

definition replace_group :: "GroupData \<Rightarrow> GroupData list \<Rightarrow> GroupData list" where
  "replace_group g gs =
     (case findIndex (\<lambda>h. id_g h = id_g g) gs of
        None \<Rightarrow> gs
      | Some i \<Rightarrow> gs[i := g])"

text \<open>The loop starts from \<open>updatedShapes = [...shapes]\<close> and the current groups.\<close>

definition add_loop_start :: "app_state \<Rightarrow> add_loop" where
  "add_loop_start st =
     \<lparr>orig_groupId = map groupId (shapes st), updatedShapes = shapes st,
      pending_groups = groups st\<rparr>"

definition addShapesToGroup :: "GroupData \<Rightarrow> nat list \<Rightarrow> app_state \<Rightarrow> app_state" where
  "addShapesToGroup targetGroup shapesToAdd st =
     (let L = foldl (add_step (groups st) targetGroup) (add_loop_start st) shapesToAdd;
          groupShapes = filter (\<lambda>shape. groupId shape = Some (id_g targetGroup)) (updatedShapes L)
      in st\<lparr>shapes := updatedShapes L,
            groups := replace_group (updateGroupBoundingBox targetGroup groupShapes)
                        (pending_groups L)\<rparr>)"

subsection \<open>createGroup\<close>

definition selectedGroups :: "app_state \<Rightarrow> GroupData list" where
  "selectedGroups st = List.map_filter (\<lambda>i. find_group (groups st) i) (selectedIds st)"

definition is_selected_shape :: "app_state \<Rightarrow> ShapeData \<Rightarrow> bool" where
  "is_selected_shape st shape \<longleftrightarrow>
     id_s shape \<in> set (selectedIds st) \<or>
     (truthy (groupId shape) \<and> the (groupId shape) \<in> set (selectedIds st))"

text \<open>The positions in \<open>shapes\<close> of the objects of \<open>selectedShapes\<close>.\<close>

definition selectedShapes :: "app_state \<Rightarrow> nat list" where
  "selectedShapes st =
     filter (\<lambda>k. is_selected_shape st (shapes st ! k)) [0..<length (shapes st)]"

text \<open>The test \<open>!shape.groupId || shape.groupId !== targetGroup.id\<close>.\<close>

definition not_member_of :: "GroupData \<Rightarrow> ShapeData \<Rightarrow> bool" where
  "not_member_of targetGroup shape \<longleftrightarrow>
     \<not> truthy (groupId shape) \<or> groupId shape \<noteq> Some (id_g targetGroup)"

definition shapesToAdd :: "app_state \<Rightarrow> GroupData \<Rightarrow> nat list" where
  "shapesToAdd st targetGroup =
     filter (\<lambda>k. not_member_of targetGroup (shapes st ! k)) (selectedShapes st)"

definition shapesToGroup :: "app_state \<Rightarrow> nat list" where
  "shapesToGroup st =
     filter (\<lambda>k. id_s (shapes st ! k) \<in> set (selectedIds st) \<and> \<not> truthy (groupId (shapes st ! k)))
       [0..<length (shapes st)]"

text \<open>The body of \<open>shapesToGroup.forEach\<close> that moves one shape into the new group.\<close>

definition group_step ::
  "GroupData list \<Rightarrow> string \<Rightarrow> real \<Rightarrow> real \<Rightarrow> ShapeData list \<Rightarrow> nat \<Rightarrow> ShapeData list" where
  "group_step gs newId avgX avgY us k =
     (let shape = us ! k;
          absPos = getAbsolutePosition gs (node_s shape);
          n = (node_s shape)\<lparr>node_x := px absPos - avgX, node_y := py absPos - avgY,
                             node_draggable := False, node_parent := Some newId\<rparr>
      in set_groupId_by_id (id_s shape) (Some newId) (us[k := shape\<lparr>node_s := n\<rparr>]))"

text \<open>The body of the second \<open>forEach\<close>: the running bounds of the background.\<close>

definition member_bounds :: "bounds \<Rightarrow> ShapeData \<Rightarrow> bounds" where
  "member_bounds b shape =
     (let pos = position (node_s shape) in
      case type_s shape of
        Rectangle \<Rightarrow>
          (let width = node_width (node_s shape); height = node_height (node_s shape)
           in \<lparr>minX = min (minX b) (px pos - width / 2 - 10),
               minY = min (minY b) (py pos - height / 2 - 10),
               maxX = max (maxX b) (px pos + width / 2 + 10),
               maxY = max (maxY b) (py pos + height / 2 + 10)\<rparr>)
      | Circle \<Rightarrow>
          (let radius = node_radius (node_s shape)
           in \<lparr>minX = min (minX b) (px pos - radius - 10),
               minY = min (minY b) (py pos - radius - 10),
               maxX = max (maxX b) (px pos + radius + 10),
               maxY = max (maxY b) (py pos + radius + 10)\<rparr>))"

definition new_group :: "string \<Rightarrow> real \<Rightarrow> real \<Rightarrow> bounds \<Rightarrow> GroupData" where
  "new_group newId avgX avgY b =
     \<lparr>id_g = newId,
      node_g = \<lparr>gnode_x = avgX, gnode_y = avgY, gnode_rotation = 0,
                gnode_scaleX = 1, gnode_scaleY = 1\<rparr>,
      backgroundNode = background_of b\<rparr>"

definition average :: "(ShapeData \<Rightarrow> real) \<Rightarrow> ShapeData list \<Rightarrow> real" where
  "average f ss = foldl (\<lambda>sum shape. sum + f shape) 0 ss / real (length ss)"

text \<open>The id \<open>`group-${Date.now()}`\<close>.\<close>

definition new_group_id :: "nat \<Rightarrow> string" where
  "new_group_id now = ''group-'' @ string_of_nat now"

text \<open>\<open>avgX\<close> and \<open>avgY\<close>: the mean of the positions of the shapes to group.\<close>

definition group_center :: "app_state \<Rightarrow> Point" where
  "group_center st =
     \<lparr>px = average (\<lambda>shape. node_x (node_s shape)) (map (\<lambda>k. shapes st ! k) (shapesToGroup st)),
      py = average (\<lambda>shape. node_y (node_s shape)) (map (\<lambda>k. shapes st ! k) (shapesToGroup st))\<rparr>"

definition createNewGroup :: "nat \<Rightarrow> app_state \<Rightarrow> app_state \<times> string option" where
  "createNewGroup now st =
     (let newId = new_group_id now;
          toGroup = shapesToGroup st
      in if length toGroup < 2 then
           (st, Some ''Please select at least 2 ungrouped shapes to create a new group'')
         else
           (let avgX = px (group_center st);
                avgY = py (group_center st);
                us = foldl (group_step (groups st) newId avgX avgY) (shapes st) toGroup;
                b = foldl member_bounds initial_bounds (map (\<lambda>k. us ! k) toGroup)
            in (st\<lparr>shapes := us,
                    groups := groups st @ [new_group newId avgX avgY b],
                    selectedIds := [newId]\<rparr>, None)))"

text \<open>The two branches that add to an existing group run the same statements.\<close>

definition addToExisting :: "app_state \<Rightarrow> app_state \<times> string option" where
  "addToExisting st =
     (let targetGroup = hd (selectedGroups st);
          toAdd = shapesToAdd st targetGroup
      in if length toAdd = 0 then (st, Some ''All selected shapes are already in this group'')
         else ((addShapesToGroup targetGroup toAdd st)\<lparr>selectedIds := [id_g targetGroup]\<rparr>, None))"

definition createGroup :: "nat \<Rightarrow> app_state \<Rightarrow> app_state \<times> string option" where
  "createGroup now st =
     (if length (selectedIds st) < 2 then
        (st, Some ''Please select at least 2 shapes to group'')
      else if length (selectedGroups st) = 1 \<and>
              (\<exists>k \<in> set (selectedShapes st). not_member_of (hd (selectedGroups st)) (shapes st ! k))
      then addToExisting st
      else if length (selectedGroups st) = 1 \<and> length (selectedShapes st) > 0
      then addToExisting st
      else createNewGroup now st)"

subsection \<open>ungroup\<close>

text \<open>The body of \<open>groupShapes.forEach\<close> for the shape at position \<open>k\<close>.\<close>

definition ungroup_step :: "GroupData list \<Rightarrow> GroupData \<Rightarrow> ShapeData list \<Rightarrow> nat \<Rightarrow> ShapeData list" where
  "ungroup_step gs grp us k =
     (let shape = us ! k;
          absPos = getAbsolutePosition gs (node_s shape);
          absRotation = node_rotation (node_s shape) + gnode_rotation (node_g grp);
          n = (node_s shape)\<lparr>node_x := px absPos, node_y := py absPos,
                             node_rotation := absRotation, node_draggable := True,
                             node_parent := None\<rparr>
      in set_groupId_by_id (id_s shape) None (us[k := shape\<lparr>node_s := n\<rparr>]))"

definition ungroup :: "app_state \<Rightarrow> app_state \<times> string option" where
  "ungroup st =
     (if length (selectedIds st) \<noteq> 1 then (st, Some ''Please select one group to ungroup'')
      else
        (let gid = hd (selectedIds st) in
         case find_group (groups st) gid of
           None \<Rightarrow> (st, Some ''Selected item is not a group'')
         | Some grp \<Rightarrow>
             (let groupShapes =
                    filter (\<lambda>k. groupId (shapes st ! k) = Some gid) [0..<length (shapes st)];
                  us = foldl (ungroup_step (groups st) grp) (shapes st) groupShapes
              in (st\<lparr>shapes := us,
                      groups := filter (\<lambda>g. id_g g \<noteq> gid) (groups st),
                      selectedIds := map (\<lambda>k. id_s (shapes st ! k)) groupShapes\<rparr>, None))))"

subsection \<open>The group button of KonvaShapeEditor\<close>

text \<open>The text computed by the callback registered with \<open>setUpdateGroupButton\<close>.\<close>

definition updateGroupButton :: "app_state \<Rightarrow> string" where
  "updateGroupButton st =
     (if length (selectedIds st) = 1 \<and> (\<exists>g \<in> set (groups st). id_g g = hd (selectedIds st))
      then ''Ungroup'' else ''Create Group'')"

text \<open>\<open>handleGroupButton\<close>: the state after the click, the alert raised, and the button
  text it sets.\<close>

definition handleGroupButton :: "nat \<Rightarrow> app_state \<Rightarrow> app_state \<times> string option \<times> string" where
  "handleGroupButton now st =
     (if length (selectedIds st) = 1 \<and> (\<exists>g \<in> set (groups st). id_g g = hd (selectedIds st))
      then (fst (ungroup st), snd (ungroup st), ''Create Group'')
      else (fst (createGroup now st), snd (createGroup now st), ''Ungroup''))"

section \<open>Auxiliary definitions for the statements\<close>

subsection \<open>Concrete scenes\<close>

definition ex_rect :: "string \<Rightarrow> real \<Rightarrow> real \<Rightarrow> string option \<Rightarrow> ShapeData" where
  "ex_rect i x y g =
     \<lparr>id_s = i,
      node_s = \<lparr>node_x = x, node_y = y, node_rotation = 0, node_draggable = (g = None),
                node_width = 100, node_height = 50, node_radius = 0, node_parent = g\<rparr>,
      type_s = Rectangle, groupId = g\<rparr>"

definition ex_circle :: "string \<Rightarrow> real \<Rightarrow> real \<Rightarrow> string option \<Rightarrow> ShapeData" where
  "ex_circle i x y g =
     \<lparr>id_s = i,
      node_s = \<lparr>node_x = x, node_y = y, node_rotation = 0, node_draggable = (g = None),
                node_width = 0, node_height = 0, node_radius = 50, node_parent = g\<rparr>,
      type_s = Circle, groupId = g\<rparr>"

definition ex_group :: "string \<Rightarrow> real \<Rightarrow> real \<Rightarrow> GroupData" where
  "ex_group i x y =
     \<lparr>id_g = i,
      node_g = \<lparr>gnode_x = x, gnode_y = y, gnode_rotation = 0, gnode_scaleX = 1, gnode_scaleY = 1\<rparr>,
      backgroundNode = \<lparr>bg_x = 0, bg_y = 0, bg_width = 0, bg_height = 0\<rparr>\<rparr>"

text \<open>A rectangle and a circle, both loose, both selected.\<close>

definition two_loose :: app_state where
  "two_loose =
     \<lparr>shapes = [ex_rect ''rect-101'' 100 200 None, ex_circle ''circle-102'' 300 400 None],
      groups = [], selectedIds = [''rect-101'', ''circle-102''], hoveredId = None\<rparr>"

text \<open>The same state reached from the empty canvas: a rectangle and a circle are added, the
  rectangle is clicked and the circle is shift-clicked, each through the handler
  registered when it was added.\<close>

definition built_pair :: app_state where
  "built_pair =
     registered_click (shapes (addRectangle 101 100 200 initial_state)) ''circle-102'' True
       (registered_click (shapes initial_state) ''rect-101'' False
          (addCircle 102 300 400 (addRectangle 101 100 200 initial_state)))"

text \<open>The same two shapes selected, and a third loose rectangle that is not.\<close>

definition three_loose :: app_state where
  "three_loose =
     \<lparr>shapes = [ex_rect ''rect-101'' 100 200 None, ex_circle ''circle-102'' 300 400 None,
                ex_rect ''rect-104'' 700 500 None],
      groups = [], selectedIds = [''rect-101'', ''circle-102''], hoveredId = None\<rparr>"

text \<open>Shapes S1 and S2 form the group G, S3 is loose; the selection is given separately.\<close>

definition merge_scene :: "string list \<Rightarrow> app_state" where
  "merge_scene sel =
     \<lparr>shapes = [ex_rect ''rect-101'' (-100) 0 (Some ''group-103''),
                ex_circle ''circle-102'' 100 0 (Some ''group-103''),
                ex_rect ''rect-104'' 700 500 None],
      groups = [ex_group ''group-103'' 300 300],
      selectedIds = sel, hoveredId = None\<rparr>"

text \<open>A group of three rectangles and a group of two circles.\<close>

definition two_groups_scene :: "string list \<Rightarrow> app_state" where
  "two_groups_scene sel =
     \<lparr>shapes = [ex_rect ''rect-101'' 300 0 (Some ''group-104''),
                ex_rect ''rect-102'' (-100) 0 (Some ''group-104''),
                ex_rect ''rect-103'' (-200) 0 (Some ''group-104''),
                ex_circle ''circle-105'' (-50) 0 (Some ''group-107''),
                ex_circle ''circle-106'' 50 0 (Some ''group-107'')],
      groups = [ex_group ''group-104'' 400 100, ex_group ''group-107'' 800 600],
      selectedIds = sel, hoveredId = None\<rparr>"

text \<open>Two circles in one group, two rectangles in another.\<close>

definition pairs_scene :: "string list \<Rightarrow> app_state" where
  "pairs_scene sel =
     \<lparr>shapes = [ex_circle ''circle-105'' (-50) 0 (Some ''group-107''),
                ex_circle ''circle-106'' 50 0 (Some ''group-107''),
                ex_rect ''rect-101'' (-100) 0 (Some ''group-103''),
                ex_rect ''rect-102'' 100 0 (Some ''group-103'')],
      groups = [ex_group ''group-103'' 400 100, ex_group ''group-107'' 800 600],
      selectedIds = sel, hoveredId = None\<rparr>"

text \<open>A group whose members all lie at negative local coordinates, and a loose
  rectangle to its upper left; the rectangle and the group are selected.\<close>

definition negative_scene :: app_state where
  "negative_scene =
     \<lparr>shapes = [ex_rect ''rect-101'' (-300) (-300) (Some ''group-103''),
                ex_circle ''circle-102'' (-200) (-200) (Some ''group-103''),
                ex_rect ''rect-104'' 100 100 None],
      groups = [ex_group ''group-103'' 1000 1000],
      selectedIds = [''rect-104'', ''group-103''], hoveredId = None\<rparr>"

subsection \<open>Notions used in the proofs\<close>

text \<open>A loop body that rewrites the entry at one position and nothing else.\<close>

definition pointwise :: "('a \<Rightarrow> 'a) \<Rightarrow> 'a list \<Rightarrow> nat \<Rightarrow> 'a list" where
  "pointwise f xs k = xs[k := f (xs ! k)]"

text \<open>What the add loop does to the \<open>groupId\<close> fields and the group ids alone: the \<open>groupId\<close>
  of the objects of \<open>shapes\<close>, that of the entries of \<open>updatedShapes\<close>, and the ids of the
  groups not yet removed.\<close>

type_synonym gid_view = "string option list \<times> string option list \<times> string list"

definition view :: "add_loop \<Rightarrow> gid_view" where
  "view L = (orig_groupId L, map groupId (updatedShapes L), map id_g (pending_groups L))"

text \<open>The test that makes the loop dissolve the old group of the shape at position \<open>k\<close>.\<close>

definition dissolves :: "string list \<Rightarrow> string option list \<Rightarrow> nat \<Rightarrow> bool" where
  "dissolves gids og k \<longleftrightarrow>
     truthy (og ! k) \<and> the (og ! k) \<in> set gids \<and> length (filter (\<lambda>g. g = og ! k) og) \<le> 2"

text \<open>One iteration of the add loop, seen through \<open>view\<close>.\<close>

definition gid_step :: "string list \<Rightarrow> string \<Rightarrow> gid_view \<Rightarrow> nat \<Rightarrow> gid_view" where
  "gid_step gids tgid v k =
     (case v of (og, ug, pg) \<Rightarrow>
        if dissolves gids og k then
          (map2 (\<lambda>a u. if u = og ! k then None else a) og ug,
           (map (\<lambda>u. if u = og ! k then None else u) ug)[k := Some tgid],
           filter (\<lambda>g. g \<noteq> the (og ! k)) pg)
        else (og, ug[k := Some tgid], pg))"

text \<open>The invariant of the add loop: an entry of \<open>updatedShapes\<close> differs from its object in
  \<open>shapes\<close> only by naming the target group, and no shape still to be added is a member
  of the target group.\<close>

definition linked :: "string \<Rightarrow> nat list \<Rightarrow> gid_view \<Rightarrow> bool" where
  "linked tgid ks v \<longleftrightarrow>
     (case v of (og, ug, pg) \<Rightarrow>
        length og = length ug \<and>
        (\<forall>i < length ug. ug ! i = og ! i \<or> ug ! i = Some tgid) \<and>
        (\<forall>k \<in> set ks. k < length ug \<and> og ! k \<noteq> Some tgid))"

text \<open>The group \<open>old\<close> is gone and no shape names it.\<close>

definition dissolved :: "string \<Rightarrow> gid_view \<Rightarrow> bool" where
  "dissolved old v \<longleftrightarrow>
     old \<notin> set (snd (snd v)) \<and> (\<forall>i < length (fst (snd v)). fst (snd v) ! i \<noteq> Some old)"

text \<open>What \<open>createGroup\<close> does to one shape it moves into the new group.\<close>

definition group_shape :: "GroupData list \<Rightarrow> string \<Rightarrow> real \<Rightarrow> real \<Rightarrow> ShapeData \<Rightarrow> ShapeData" where
  "group_shape gs newId avgX avgY shape =
     shape\<lparr>node_s := (node_s shape)
              \<lparr>node_x := px (getAbsolutePosition gs (node_s shape)) - avgX,
               node_y := py (getAbsolutePosition gs (node_s shape)) - avgY,
               node_draggable := False, node_parent := Some newId\<rparr>,
           groupId := Some newId\<rparr>"

text \<open>What \<open>ungroup\<close> does to one member of the group.\<close>

definition ungroup_shape :: "GroupData list \<Rightarrow> GroupData \<Rightarrow> ShapeData \<Rightarrow> ShapeData" where
  "ungroup_shape gs grp shape =
     shape\<lparr>node_s := (node_s shape)
              \<lparr>node_x := px (getAbsolutePosition gs (node_s shape)),
               node_y := py (getAbsolutePosition gs (node_s shape)),
               node_rotation := node_rotation (node_s shape) + gnode_rotation (node_g grp),
               node_draggable := True, node_parent := None\<rparr>,
           groupId := None\<rparr>"

text \<open>What \<open>addShapesToGroup\<close> does to a shape it adds to the group \<open>G\<close>, from the state the
  loop started in: the position is the former absolute position taken into the space of
  \<open>G\<close>, the rotation the former absolute rotation less that of \<open>G\<close>.\<close>

definition moved_into :: "GroupData list \<Rightarrow> GroupData \<Rightarrow> ShapeData \<Rightarrow> ShapeData" where
  "moved_into gs G s =
     s\<lparr>node_s := (node_s s)
          \<lparr>node_x := (px (getAbsolutePosition gs (node_s s)) - gnode_x (node_g G))
                        * cos (- radians (gnode_rotation (node_g G)))
                      - (py (getAbsolutePosition gs (node_s s)) - gnode_y (node_g G))
                        * sin (- radians (gnode_rotation (node_g G))),
           node_y := (px (getAbsolutePosition gs (node_s s)) - gnode_x (node_g G))
                        * sin (- radians (gnode_rotation (node_g G)))
                      + (py (getAbsolutePosition gs (node_s s)) - gnode_y (node_g G))
                        * cos (- radians (gnode_rotation (node_g G))),
           node_rotation := getAbsoluteRotation gs (node_s s) - gnode_rotation (node_g G),
           node_draggable := False,
           node_parent := Some (id_g G)\<rparr>,
       groupId := Some (id_g G)\<rparr>"

text \<open>The old group \<open>old\<close> passes the test of the loop: it exists and has at most two members.\<close>

definition dissolvable :: "GroupData list \<Rightarrow> ShapeData list \<Rightarrow> string \<Rightarrow> bool" where
  "dissolvable gs S old \<longleftrightarrow>
     old \<noteq> [] \<and> old \<in> set (map id_g gs) \<and> length (filter (\<lambda>s. groupId s = Some old) S) \<le> 2"

text \<open>The group of the shape at position \<open>i\<close> has been dissolved once the positions \<open>D\<close> are
  processed.\<close>

definition hit :: "GroupData list \<Rightarrow> ShapeData list \<Rightarrow> nat set \<Rightarrow> nat \<Rightarrow> bool" where
  "hit gs S D i \<longleftrightarrow>
     (\<exists>k \<in> D. \<exists>old. groupId (S ! k) = Some old \<and> groupId (S ! i) = Some old \<and> dissolvable gs S old)"

text \<open>The state of the add loop once the positions \<open>D\<close> are processed, entry by entry.\<close>

definition add_inv ::
  "GroupData list \<Rightarrow> GroupData \<Rightarrow> ShapeData list \<Rightarrow> nat set \<Rightarrow> add_loop \<Rightarrow> bool" where
  "add_inv gs G S D L \<longleftrightarrow>
     length (updatedShapes L) = length S \<and> length (orig_groupId L) = length S \<and>
     (\<forall>i < length S.
        orig_groupId L ! i = (if hit gs S D i then None else groupId (S ! i)) \<and>
        updatedShapes L ! i =
          (if i \<in> D then moved_into gs G (S ! i)
           else if hit gs S D i then release_shape gs (S ! i) else S ! i)) \<and>
     pending_groups L =
       filter (\<lambda>g. \<not> (\<exists>k \<in> D. groupId (S ! k) = Some (id_g g) \<and> dissolvable gs S (id_g g))) gs"


section \<open>Helper lemmas\<close>

lemma toggle_set:
  "set (toggle i prev) = (if i \<in> set prev then set prev - {i} else insert i (set prev))"
  by (auto simp: toggle_def)

lemma addToExisting_alert: "addToExisting st = (st', Some msg) \<Longrightarrow> st' = st"
  by (simp add: addToExisting_def Let_def split: if_splits)

lemma createNewGroup_alert: "createNewGroup now st = (st', Some msg) \<Longrightarrow> st' = st"
  by (simp add: createNewGroup_def Let_def split: if_splits)

lemma createGroup_alert: "createGroup now st = (st', Some msg) \<Longrightarrow> st' = st"
  unfolding createGroup_def
  by (metis addToExisting_alert createNewGroup_alert prod.inject)

lemma ungroup_alert: "ungroup st = (st', Some msg) \<Longrightarrow> st' = st"
  by (simp add: ungroup_def Let_def split: if_splits option.splits)

lemmas scene_simps = ex_rect_def ex_circle_def ex_group_def two_loose_def three_loose_def
  merge_scene_def
  two_groups_scene_def pairs_scene_def

lemmas selection_simps = selectedGroups_def List.map_filter_def find_group_def
  selectedShapes_def is_selected_shape_def truthy_def not_member_of_def shapesToGroup_def

lemma findIndex_distinct:
  "distinct (map f xs) \<Longrightarrow> k < length xs \<Longrightarrow> findIndex (\<lambda>s. f s = f (xs ! k)) xs = Some k"
proof (induction xs arbitrary: k)
  case Nil
  then show ?case by simp
next
  case (Cons a xs)
  show ?case
  proof (cases k)
    case 0
    then show ?thesis by simp
  next
    case (Suc j)
    with Cons.prems have j: "j < length xs" and d: "distinct (map f xs)" by auto
    have "xs ! j \<in> set xs" using j by simp
    with Cons.prems have "f (xs ! j) \<noteq> f a" by (metis distinct.simps(2) image_eqI list.simps(9) list.set_map)
    then show ?thesis using Cons.IH[OF d j] Suc by simp
  qed
qed

lemma set_groupId_by_id_nth:
  "distinct (map id_s us) \<Longrightarrow> k < length us \<Longrightarrow>
   set_groupId_by_id (id_s (us ! k)) g us = us[k := (us ! k)\<lparr>groupId := g\<rparr>]"
  by (simp add: set_groupId_by_id_def findIndex_distinct)

lemma pointwise_length [simp]: "length (pointwise f xs k) = length xs"
  by (simp add: pointwise_def)

lemma pointwise_nth:
  "i < length xs \<Longrightarrow> pointwise f xs k ! i = (if i = k then f (xs ! k) else xs ! i)"
  by (simp add: pointwise_def)

lemma foldl_pointwise_length [simp]: "length (foldl (pointwise f) xs ks) = length xs"
  by (induction ks arbitrary: xs) simp_all

lemma foldl_pointwise_nth:
  "distinct ks \<Longrightarrow> i < length xs \<Longrightarrow>
   foldl (pointwise f) xs ks ! i = (if i \<in> set ks then f (xs ! i) else xs ! i)"
proof (induction ks arbitrary: xs)
  case Nil
  then show ?case by simp
next
  case (Cons k ks)
  have len: "i < length (pointwise f xs k)" using Cons.prems by simp
  have "foldl (pointwise f) (pointwise f xs k) ks ! i =
        (if i \<in> set ks then f (pointwise f xs k ! i) else pointwise f xs k ! i)"
    using Cons.IH[OF _ len] Cons.prems(1) by simp
  then show ?case using Cons.prems by (auto simp: pointwise_nth)
qed

lemma find_group_Some: "find_group gs i = Some g \<Longrightarrow> id_g g = i \<and> g \<in> set gs"
  by (auto simp: find_group_def find_Some_iff)

lemma find_group_None: "find_group gs i = None \<longleftrightarrow> i \<notin> set (map id_g gs)"
  by (auto simp: find_group_def find_None_iff)

lemma release_shape_fields [simp]:
  "id_s (release_shape gs s) = id_s s" "groupId (release_shape gs s) = None"
  "type_s (release_shape gs s) = type_s s"
  by (simp_all add: release_shape_def Let_def)

lemma map_update_same:
  "f y = f (xs ! k) \<Longrightarrow> map f (xs[k := y]) = map f xs"
proof (cases "k < length xs")
  case True
  assume "f y = f (xs ! k)"
  then have "map f (xs[k := y]) = (map f xs)[k := map f xs ! k]"
    using True by (simp add: map_update)
  then show ?thesis by simp
next
  case False
  then have "xs[k := y] = xs" by (simp add: list_update_beyond)
  then show ?thesis by simp
qed

lemma set_groupId_by_id_ids [simp]: "map id_s (set_groupId_by_id i g us) = map id_s us"
  by (simp add: set_groupId_by_id_def map_update_same split: option.splits)

lemma set_groupId_by_id_length [simp]: "length (set_groupId_by_id i g us) = length us"
  by (simp add: set_groupId_by_id_def split: option.splits)

lemma remove_ids [simp]:
  "map id_s (updatedShapes (remove_from_old_group gs k L)) = map id_s (updatedShapes L)"
  by (simp add: remove_from_old_group_def comp_def split: option.splits cong: map_cong)

lemma move_ids [simp]:
  "map id_s (updatedShapes (move_into_group gs tg k L)) = map id_s (updatedShapes L)"
  by (simp add: move_into_group_def Let_def map_update_same)

lemma add_step_ids [simp]:
  "map id_s (updatedShapes (add_step gs tg L k)) = map id_s (updatedShapes L)"
  by (simp add: add_step_def)

lemma view_remove:
  "view (remove_from_old_group gs k L) =
     (if dissolves (map id_g gs) (orig_groupId L) k then
        (map2 (\<lambda>a u. if u = orig_groupId L ! k then None else a) (orig_groupId L) (map groupId (updatedShapes L)),
         map (\<lambda>u. if u = orig_groupId L ! k then None else u) (map groupId (updatedShapes L)),
         filter (\<lambda>g. g \<noteq> the (orig_groupId L ! k)) (map id_g (pending_groups L)))
      else view L)"
proof (cases "truthy (orig_groupId L ! k)")
  case False
  then show ?thesis by (simp add: remove_from_old_group_def dissolves_def)
next
  case True
  then obtain old where old: "orig_groupId L ! k = Some old"
    by (auto simp: truthy_def split: option.splits)
  show ?thesis
  proof (cases "find_group gs old")
    case None
    moreover from None have "old \<notin> set (map id_g gs)" by (simp add: find_group_None)
    ultimately show ?thesis using True old
      by (simp add: remove_from_old_group_def dissolves_def)
  next
    case (Some g)
    then have g: "id_g g = old" "old \<in> set (map id_g gs)"
      using find_group_Some[OF Some] by auto
    show ?thesis using True old Some g
      by (auto simp: remove_from_old_group_def dissolves_def view_def zip_map2 comp_def filter_map
               cong: map_cong)
  qed
qed

lemma set_groupId_after_node_update:
  assumes "distinct (map id_s us)" "k < length us"
  shows "map groupId (set_groupId_by_id (id_s (us ! k)) g (us[k := (us ! k)\<lparr>node_s := n\<rparr>]))
           = (map groupId us)[k := g]"
    and "set_groupId_by_id (id_s (us ! k)) g (us[k := (us ! k)\<lparr>node_s := n\<rparr>])
           = us[k := (us ! k)\<lparr>node_s := n, groupId := g\<rparr>]"
proof -
  let ?vs = "us[k := (us ! k)\<lparr>node_s := n\<rparr>]"
  have ids: "map id_s ?vs = map id_s us" by (simp add: map_update_same)
  have k: "k < length ?vs" using assms by simp
  have idk: "id_s (?vs ! k) = id_s (us ! k)" using assms by simp
  have "set_groupId_by_id (id_s (?vs ! k)) g ?vs = ?vs[k := (?vs ! k)\<lparr>groupId := g\<rparr>]"
    using assms ids by (intro set_groupId_by_id_nth) simp_all
  then show eq: "set_groupId_by_id (id_s (us ! k)) g ?vs = us[k := (us ! k)\<lparr>node_s := n, groupId := g\<rparr>]"
    using idk assms by simp
  show "map groupId (set_groupId_by_id (id_s (us ! k)) g ?vs) = (map groupId us)[k := g]"
    unfolding eq by (simp add: map_update)
qed

lemma view_move:
  assumes "distinct (map id_s (updatedShapes L))" "k < length (updatedShapes L)"
  shows "view (move_into_group gs tg k L) =
           (orig_groupId L, (map groupId (updatedShapes L))[k := Some (id_g tg)],
            map id_g (pending_groups L))"
  using assms by (simp add: view_def move_into_group_def Let_def set_groupId_after_node_update(1))

lemma remove_length [simp]:
  "length (updatedShapes (remove_from_old_group gs k L)) = length (updatedShapes L)"
  by (metis length_map remove_ids)

lemma view_add_step:
  assumes "distinct (map id_s (updatedShapes L))" "k < length (updatedShapes L)"
  shows "view (add_step gs tg L k) = gid_step (map id_g gs) (id_g tg) (view L) k"
proof -
  let ?L1 = "remove_from_old_group gs k L"
  have d: "distinct (map id_s (updatedShapes ?L1))" and k: "k < length (updatedShapes ?L1)"
    using assms by simp_all
  have "view (add_step gs tg L k) =
          (fst (view ?L1), (fst (snd (view ?L1)))[k := Some (id_g tg)], snd (snd (view ?L1)))"
    unfolding add_step_def view_move[OF d k] by (simp add: view_def)
  then show ?thesis
    by (simp add: view_remove gid_step_def) (simp add: view_def)
qed

lemma add_step_length [simp]:
  "length (updatedShapes (add_step gs tg L k)) = length (updatedShapes L)"
  by (metis length_map add_step_ids)

lemma foldl_add_step_ids [simp]:
  "map id_s (updatedShapes (foldl (add_step gs tg) L ks)) = map id_s (updatedShapes L)"
  by (induction ks arbitrary: L) simp_all

lemma view_foldl_add_step:
  assumes "distinct (map id_s (updatedShapes L))" "\<forall>k \<in> set ks. k < length (updatedShapes L)"
  shows "view (foldl (add_step gs tg) L ks) = foldl (gid_step (map id_g gs) (id_g tg)) (view L) ks"
  using assms
proof (induction ks arbitrary: L)
  case Nil
  then show ?case by simp
next
  case (Cons k ks)
  have "view (foldl (add_step gs tg) (add_step gs tg L k) ks) =
        foldl (gid_step (map id_g gs) (id_g tg)) (view (add_step gs tg L k)) ks"
    using Cons.prems by (intro Cons.IH) simp_all
  then show ?case using Cons.prems by (simp add: view_add_step)
qed

lemma dissolves_old:
  "dissolves gids og k \<Longrightarrow> \<exists>old. og ! k = Some old \<and> old \<noteq> [] \<and> old \<in> set gids"
  by (auto simp: dissolves_def truthy_def split: option.splits)

lemma gid_step_length:
  "length (fst (snd (gid_step gids tgid (og, ug, pg) k))) = length ug"
  "length og = length ug \<Longrightarrow> length (fst (gid_step gids tgid (og, ug, pg) k)) = length ug"
  by (simp_all add: gid_step_def)

lemma gid_step_ug_nth:
  assumes "i < length ug"
  shows "fst (snd (gid_step gids tgid (og, ug, pg) k)) ! i =
           (if i = k then Some tgid
            else if dissolves gids og k \<and> ug ! i = og ! k then None else ug ! i)"
  using assms by (simp add: gid_step_def nth_list_update)

lemma gid_step_og_nth:
  assumes "i < length ug" "length og = length ug"
  shows "fst (gid_step gids tgid (og, ug, pg) k) ! i =
           (if dissolves gids og k \<and> ug ! i = og ! k then None else og ! i)"
  using assms by (simp add: gid_step_def)

lemma gid_step_pg:
  "snd (snd (gid_step gids tgid (og, ug, pg) k)) =
     (if dissolves gids og k then filter (\<lambda>g. g \<noteq> the (og ! k)) pg else pg)"
  by (simp add: gid_step_def)

lemma gid_step_linked:
  assumes "linked tgid (k # ks) v"
  shows "linked tgid ks (gid_step gids tgid v k)"
proof -
  obtain og ug pg where v: "v = (og, ug, pg)" by (cases v) auto
  obtain og' ug' pg' where s: "gid_step gids tgid (og, ug, pg) k = (og', ug', pg')"
    by (cases "gid_step gids tgid (og, ug, pg) k") auto
  from assms v have len: "length og = length ug"
    and link: "\<And>i. i < length ug \<Longrightarrow> ug ! i = og ! i \<or> ug ! i = Some tgid"
    and kk: "k < length ug" "og ! k \<noteq> Some tgid"
    and rest: "\<And>j. j \<in> set ks \<Longrightarrow> j < length ug \<and> og ! j \<noteq> Some tgid"
    by (auto simp: linked_def)
  have l1: "length ug' = length ug" using gid_step_length(1)[of gids tgid og ug pg k] s by simp
  have l2: "length og' = length ug" using gid_step_length(2)[OF len, of gids tgid pg k] s by simp
  have u: "\<And>i. i < length ug \<Longrightarrow> ug' ! i = (if i = k then Some tgid
            else if dissolves gids og k \<and> ug ! i = og ! k then None else ug ! i)"
    using gid_step_ug_nth[of _ ug gids tgid og pg k] s by simp
  have g: "\<And>i. i < length ug \<Longrightarrow> og' ! i =
           (if dissolves gids og k \<and> ug ! i = og ! k then None else og ! i)"
    using gid_step_og_nth[OF _ len, of _ gids tgid pg k] s by simp
  have "\<forall>i < length ug'. ug' ! i = og' ! i \<or> ug' ! i = Some tgid"
    using l1 u g link by auto
  moreover have "\<forall>j \<in> set ks. j < length ug' \<and> og' ! j \<noteq> Some tgid"
    using l1 g rest by auto
  ultimately show ?thesis using v s l1 l2 by (simp add: linked_def)
qed

lemma gid_step_member:
  assumes "linked tgid (k # ks) (og, ug, pg)" "i < length ug"
  shows "fst (snd (gid_step gids tgid (og, ug, pg) k)) ! i = Some tgid \<longleftrightarrow>
           i = k \<or> ug ! i = Some tgid"
proof -
  from assms have kk: "og ! k \<noteq> Some tgid" by (simp add: linked_def)
  show ?thesis using assms(2) kk by (auto simp: gid_step_ug_nth)
qed

lemma gid_step_pg_subset:
  "set (snd (snd (gid_step gids tgid (og, ug, pg) k))) \<subseteq> set pg"
  by (auto simp: gid_step_pg)

lemma gid_step_pg_target:
  assumes "linked tgid (k # ks) (og, ug, pg)" "tgid \<in> set pg"
  shows "tgid \<in> set (snd (snd (gid_step gids tgid (og, ug, pg) k)))"
proof -
  from assms have kk: "og ! k \<noteq> Some tgid" by (simp add: linked_def)
  show ?thesis using assms(2) kk dissolves_old[of gids og k] by (auto simp: gid_step_pg)
qed

lemma foldl_gid_step_props:
  assumes "linked tgid ks v"
  shows "length (fst (snd (foldl (gid_step gids tgid) v ks))) = length (fst (snd v))
       \<and> (\<forall>i < length (fst (snd v)).
            fst (snd (foldl (gid_step gids tgid) v ks)) ! i = Some tgid \<longleftrightarrow>
              i \<in> set ks \<or> fst (snd v) ! i = Some tgid)
       \<and> set (snd (snd (foldl (gid_step gids tgid) v ks))) \<subseteq> set (snd (snd v))
       \<and> (tgid \<in> set (snd (snd v)) \<longrightarrow> tgid \<in> set (snd (snd (foldl (gid_step gids tgid) v ks))))"
  using assms
proof (induction ks arbitrary: v)
  case Nil
  then show ?case by simp
next
  case (Cons k ks)
  obtain og ug pg where v: "v = (og, ug, pg)" by (cases v) auto
  let ?v' = "gid_step gids tgid v k"
  have l': "linked tgid ks ?v'" using Cons.prems by (rule gid_step_linked)
  note IH = Cons.IH[OF l']
  have len: "length (fst (snd ?v')) = length ug" using v by (simp add: gid_step_length)
  have mem: "\<And>i. i < length ug \<Longrightarrow> fst (snd ?v') ! i = Some tgid \<longleftrightarrow> i = k \<or> ug ! i = Some tgid"
    using gid_step_member[of tgid k ks og ug pg _ gids] Cons.prems v by simp
  have sub: "set (snd (snd ?v')) \<subseteq> set pg" using v gid_step_pg_subset by simp
  have tg: "tgid \<in> set pg \<Longrightarrow> tgid \<in> set (snd (snd ?v'))"
    using gid_step_pg_target[of tgid k ks og ug pg gids] Cons.prems v by simp
  show ?case using IH len mem sub tg v by auto
qed

lemma filter_length_mono:
  assumes "length xs = length ys" "\<forall>i < length xs. P (xs ! i) \<longrightarrow> Q (ys ! i)"
  shows "length (filter P xs) \<le> length (filter Q ys)"
proof -
  have "{i. i < length xs \<and> P (xs ! i)} \<subseteq> {i. i < length ys \<and> Q (ys ! i)}"
    using assms by auto
  moreover have "finite {i. i < length ys \<and> Q (ys ! i)}" by simp
  ultimately have "card {i. i < length xs \<and> P (xs ! i)} \<le> card {i. i < length ys \<and> Q (ys ! i)}"
    by (rule card_mono[rotated])
  then show ?thesis by (simp add: length_filter_conv_card)
qed

lemma gid_step_dissolved:
  assumes "dissolved old v" "old \<noteq> tgid"
  shows "dissolved old (gid_step gids tgid v k)"
proof -
  obtain og ug pg where v: "v = (og, ug, pg)" by (cases v) auto
  have len: "length (fst (snd (gid_step gids tgid (og, ug, pg) k))) = length ug"
    by (simp add: gid_step_length)
  have "\<forall>i < length ug. fst (snd (gid_step gids tgid (og, ug, pg) k)) ! i \<noteq> Some old"
    using assms v by (auto simp: gid_step_ug_nth dissolved_def)
  moreover have "old \<notin> set (snd (snd (gid_step gids tgid (og, ug, pg) k)))"
    using assms v gid_step_pg_subset[of gids tgid og ug pg k] by (auto simp: dissolved_def)
  ultimately show ?thesis using v len by (simp add: dissolved_def)
qed

lemma foldl_gid_step_dissolved:
  "dissolved old v \<Longrightarrow> old \<noteq> tgid \<Longrightarrow> dissolved old (foldl (gid_step gids tgid) v ks)"
  by (induction ks arbitrary: v) (simp_all add: gid_step_dissolved)

lemma gid_step_dissolves_now:
  assumes "og ! k = Some old" "old \<noteq> []" "old \<in> set gids" "old \<noteq> tgid"
    and "length (filter (\<lambda>g. g = Some old) og) \<le> 2"
  shows "dissolved old (gid_step gids tgid (og, ug, pg) k)"
proof -
  have d: "dissolves gids og k" using assms by (simp add: dissolves_def truthy_def)
  have len: "length (fst (snd (gid_step gids tgid (og, ug, pg) k))) = length ug"
    by (simp add: gid_step_length)
  have "\<forall>i < length ug. fst (snd (gid_step gids tgid (og, ug, pg) k)) ! i \<noteq> Some old"
    using assms d by (auto simp: gid_step_ug_nth)
  moreover have "old \<notin> set (snd (snd (gid_step gids tgid (og, ug, pg) k)))"
    using assms d by (simp add: gid_step_pg)
  ultimately show ?thesis using len by (simp add: dissolved_def)
qed

lemma gid_step_keeps:
  assumes l: "linked tgid (k # ks) (og, ug, pg)" and nk: "og ! k \<noteq> Some old"
    and "old \<noteq> tgid"
  shows "length (filter (\<lambda>g. g = Some old) (fst (gid_step gids tgid (og, ug, pg) k)))
           \<le> length (filter (\<lambda>g. g = Some old) og)"
    and "\<And>j. j \<in> set ks \<Longrightarrow> og ! j = Some old \<Longrightarrow>
           fst (gid_step gids tgid (og, ug, pg) k) ! j = Some old"
proof -
  from l have len: "length og = length ug"
    and link: "\<And>i. i < length ug \<Longrightarrow> ug ! i = og ! i \<or> ug ! i = Some tgid"
    and kk: "og ! k \<noteq> Some tgid"
    and rest: "\<And>j. j \<in> set ks \<Longrightarrow> j < length ug"
    by (auto simp: linked_def)
  let ?og' = "fst (gid_step gids tgid (og, ug, pg) k)"
  have l2: "length ?og' = length og" using len by (simp add: gid_step_length)
  have nth: "\<And>i. i < length ug \<Longrightarrow> ?og' ! i =
           (if dissolves gids og k \<and> ug ! i = og ! k then None else og ! i)"
    using gid_step_og_nth[OF _ len] by simp
  show "length (filter (\<lambda>g. g = Some old) ?og') \<le> length (filter (\<lambda>g. g = Some old) og)"
    using l2 nth len by (intro filter_length_mono) (auto split: if_splits)
  fix j assume j: "j \<in> set ks" "og ! j = Some old"
  then have jl: "j < length ug" using rest by simp
  have "ug ! j \<noteq> og ! k" using link[OF jl] j(2) nk kk by auto
  then show "?og' ! j = Some old" using nth[OF jl] j(2) by simp
qed

lemma foldl_gid_step_dissolves:
  assumes "linked tgid ks v" "old \<noteq> tgid" "old \<noteq> []" "old \<in> set gids"
    and "length (filter (\<lambda>g. g = Some old) (fst v)) \<le> 2"
    and "\<exists>k \<in> set ks. fst v ! k = Some old"
  shows "dissolved old (foldl (gid_step gids tgid) v ks)"
  using assms
proof (induction ks arbitrary: v)
  case Nil
  then show ?case by simp
next
  case (Cons k ks)
  obtain og ug pg where v: "v = (og, ug, pg)" by (cases v) auto
  show ?case
  proof (cases "og ! k = Some old")
    case True
    then have "dissolved old (gid_step gids tgid v k)"
      using Cons.prems v by (simp add: gid_step_dissolves_now)
    then show ?thesis using Cons.prems(2) by (simp add: foldl_gid_step_dissolved)
  next
    case False
    have l: "linked tgid (k # ks) (og, ug, pg)" using Cons.prems(1) v by simp
    from Cons.prems(6) False v obtain j where j: "j \<in> set ks" "og ! j = Some old" by auto
    have c: "length (filter (\<lambda>g. g = Some old) (fst (gid_step gids tgid v k))) \<le> 2"
      using gid_step_keeps(1)[OF l False Cons.prems(2), of gids] Cons.prems(5) v by simp
    have e: "\<exists>k' \<in> set ks. fst (gid_step gids tgid v k) ! k' = Some old"
      using gid_step_keeps(2)[OF l False Cons.prems(2) j, of gids] j(1) v by auto
    have "dissolved old (foldl (gid_step gids tgid) (gid_step gids tgid v k) ks)"
      using gid_step_linked[OF Cons.prems(1)] Cons.prems(2-4) c e by (intro Cons.IH)
    then show ?thesis by simp
  qed
qed

lemma replace_group_ids [simp]: "map id_g (replace_group g gs) = map id_g gs"
proof (cases "findIndex (\<lambda>h. id_g h = id_g g) gs")
  case None
  then show ?thesis by (simp add: replace_group_def)
next
  case (Some i)
  have "\<And>j. findIndex (\<lambda>h. id_g h = id_g g) gs = Some j \<Longrightarrow> id_g (gs ! j) = id_g g"
  proof (induction gs)
    case Nil
    then show ?case by simp
  next
    case (Cons a gs)
    then show ?case by (auto split: if_splits option.splits)
  qed
  then have "id_g g = id_g (gs ! i)" using Some by simp
  then show ?thesis using Some by (simp add: replace_group_def map_update_same)
qed

lemma selectedGroups_single:
  assumes "selectedGroups st = [G]"
  shows "G \<in> set (groups st)" "id_g G \<in> set (selectedIds st)"
proof -
  have "G \<in> set (selectedGroups st)" using assms by simp
  then obtain i where i: "i \<in> set (selectedIds st)" "find_group (groups st) i = Some G"
    by (auto simp: selectedGroups_def List.map_filter_def)
  from find_group_Some[OF i(2)] i(1) show "G \<in> set (groups st)" "id_g G \<in> set (selectedIds st)"
    by auto
qed

lemma shapesToAdd_bound: "k \<in> set (shapesToAdd st G) \<Longrightarrow> k < length (shapes st)"
  by (simp add: shapesToAdd_def selectedShapes_def)

lemma shapesToAdd_not_member:
  "k \<in> set (shapesToAdd st G) \<Longrightarrow> id_g G \<noteq> [] \<Longrightarrow> groupId (shapes st ! k) \<noteq> Some (id_g G)"
  by (auto simp: shapesToAdd_def not_member_of_def truthy_def)

lemma linked_start:
  assumes "id_g G \<noteq> []"
  shows "linked (id_g G) (shapesToAdd st G) (view (add_loop_start st))"
  using assms shapesToAdd_bound[of _ st G] shapesToAdd_not_member[of _ st G]
  by (auto simp: linked_def view_def add_loop_start_def)

lemma addShapesToGroup_view:
  "shapes (addShapesToGroup G ks st) = updatedShapes (foldl (add_step (groups st) G) (add_loop_start st) ks)"
  "map id_g (groups (addShapesToGroup G ks st)) =
     map id_g (pending_groups (foldl (add_step (groups st) G) (add_loop_start st) ks))"
  by (simp_all add: addShapesToGroup_def add_loop_start_def Let_def)

lemma createGroup_merges:
  assumes "2 \<le> length (selectedIds st)" "selectedGroups st = [G]"
    and "\<exists>k \<in> set (selectedShapes st). not_member_of G (shapes st ! k)"
  shows "createGroup now st =
           ((addShapesToGroup G (shapesToAdd st G) st)\<lparr>selectedIds := [id_g G]\<rparr>, None)"
proof -
  have "shapesToAdd st G \<noteq> []"
    using assms(3) by (auto simp: shapesToAdd_def filter_empty_conv)
  then show ?thesis using assms by (simp add: createGroup_def addToExisting_def Let_def)
qed

lemma group_step_pointwise:
  assumes "distinct (map id_s us)" "k < length us"
  shows "group_step gs newId avgX avgY us k = pointwise (group_shape gs newId avgX avgY) us k"
  using assms
  by (simp add: group_step_def Let_def set_groupId_after_node_update(2) pointwise_def group_shape_def)

lemma ungroup_step_pointwise:
  assumes "distinct (map id_s us)" "k < length us"
  shows "ungroup_step gs grp us k = pointwise (ungroup_shape gs grp) us k"
  using assms
  by (simp add: ungroup_step_def Let_def set_groupId_after_node_update(2) pointwise_def ungroup_shape_def)

lemma pointwise_ids:
  assumes "\<And>s. id_s (f s) = id_s s"
  shows "map id_s (pointwise f us k) = map id_s us"
  by (simp add: pointwise_def map_update_same assms)

lemma foldl_step_pointwise:
  assumes "\<And>us k. distinct (map id_s us) \<Longrightarrow> k < length us \<Longrightarrow> step us k = pointwise f us k"
    and "\<And>s. id_s (f s) = id_s s"
    and "distinct (map id_s us)" "\<forall>k \<in> set ks. k < length us"
  shows "foldl step us ks = foldl (pointwise f) us ks"
  using assms(3,4)
proof (induction ks arbitrary: us)
  case Nil
  then show ?case by simp
next
  case (Cons k ks)
  have s: "step us k = pointwise f us k" using Cons.prems by (intro assms(1)) simp_all
  have "distinct (map id_s (pointwise f us k))"
    using Cons.prems(1) by (simp add: pointwise_ids assms(2))
  moreover have "\<forall>j \<in> set ks. j < length (pointwise f us k)" using Cons.prems(2) by simp
  ultimately have "foldl step (pointwise f us k) ks = foldl (pointwise f) (pointwise f us k) ks"
    by (rule Cons.IH)
  then show ?case using s by simp
qed

lemma foldl_group_step:
  assumes "distinct (map id_s us)" "\<forall>k \<in> set ks. k < length us"
  shows "foldl (group_step gs newId avgX avgY) us ks =
           foldl (pointwise (group_shape gs newId avgX avgY)) us ks"
  using assms by (intro foldl_step_pointwise group_step_pointwise) (simp_all add: group_shape_def)

lemma foldl_ungroup_step:
  assumes "distinct (map id_s us)" "\<forall>k \<in> set ks. k < length us"
  shows "foldl (ungroup_step gs grp) us ks = foldl (pointwise (ungroup_shape gs grp)) us ks"
  using assms by (intro foldl_step_pointwise ungroup_step_pointwise) (simp_all add: ungroup_shape_def)

lemma foldl_sum: "foldl (\<lambda>sum shape. sum + f shape) a ss = a + sum_list (map f ss)" for a :: real
  by (induction ss arbitrary: a) simp_all

lemma average_sum_list: "average f ss = sum_list (map f ss) / real (length ss)"
  by (simp add: average_def foldl_sum)

lemma shapesToGroup_props:
  "distinct (shapesToGroup st)" "k \<in> set (shapesToGroup st) \<Longrightarrow> k < length (shapes st)"
  by (simp_all add: shapesToGroup_def)

lemma find_group_append_fresh:
  "i \<notin> set (map id_g gs) \<Longrightarrow> find_group (gs @ [g]) i = (if id_g g = i then Some g else None)"
  by (induction gs) (auto simp: find_group_def)

lemma createGroup_new:
  assumes "2 \<le> length (selectedIds st)" "length (selectedGroups st) \<noteq> 1"
  shows "createGroup now st = createNewGroup now st"
  using assms by (simp add: createGroup_def)

lemma createNewGroup_result:
  assumes "distinct (map id_s (shapes st))" "2 \<le> length (shapesToGroup st)"
  shows "snd (createNewGroup now st) = None"
    and "selectedIds (fst (createNewGroup now st)) = [new_group_id now]"
    and "shapes (fst (createNewGroup now st)) =
           foldl (pointwise (group_shape (groups st) (new_group_id now)
                    (px (group_center st)) (py (group_center st)))) (shapes st) (shapesToGroup st)"
    and "\<exists>b. groups (fst (createNewGroup now st)) =
           groups st @ [new_group (new_group_id now) (px (group_center st)) (py (group_center st)) b]"
proof -
  have fg: "foldl (group_step (groups st) (new_group_id now) (px (group_center st)) (py (group_center st)))
              (shapes st) (shapesToGroup st) =
            foldl (pointwise (group_shape (groups st) (new_group_id now)
                    (px (group_center st)) (py (group_center st)))) (shapes st) (shapesToGroup st)"
    using assms(1) shapesToGroup_props(2)[of _ st] by (intro foldl_group_step) simp_all
  show "snd (createNewGroup now st) = None" using assms(2) by (simp add: createNewGroup_def Let_def)
  show "selectedIds (fst (createNewGroup now st)) = [new_group_id now]"
    using assms(2) by (simp add: createNewGroup_def Let_def)
  show "shapes (fst (createNewGroup now st)) =
           foldl (pointwise (group_shape (groups st) (new_group_id now)
                    (px (group_center st)) (py (group_center st)))) (shapes st) (shapesToGroup st)"
    using assms(2) fg by (simp add: createNewGroup_def Let_def)
  show "\<exists>b. groups (fst (createNewGroup now st)) =
           groups st @ [new_group (new_group_id now) (px (group_center st)) (py (group_center st)) b]"
    using assms(2) by (simp add: createNewGroup_def Let_def) blast
qed

lemma createNewGroup_shape_nth:
  assumes "distinct (map id_s (shapes st))" "2 \<le> length (shapesToGroup st)" "i < length (shapes st)"
  shows "shapes (fst (createNewGroup now st)) ! i =
           (if i \<in> set (shapesToGroup st)
            then group_shape (groups st) (new_group_id now) (px (group_center st)) (py (group_center st))
                   (shapes st ! i)
            else shapes st ! i)"
  unfolding createNewGroup_result(3)[OF assms(1,2)]
  using assms(3) shapesToGroup_props(1)[of st] by (rule foldl_pointwise_nth[rotated])

lemma group_center_mean:
  "px (group_center st) =
     sum_list (map (\<lambda>k. node_x (node_s (shapes st ! k))) (shapesToGroup st)) / real (length (shapesToGroup st))"
  "py (group_center st) =
     sum_list (map (\<lambda>k. node_y (node_s (shapes st ! k))) (shapesToGroup st)) / real (length (shapesToGroup st))"
  by (simp_all add: group_center_def average_sum_list comp_def)

lemma abs_in_new_group:
  assumes "newId \<notin> set (map id_g gs)" "node_parent n = Some newId"
  shows "getAbsolutePosition (gs @ [new_group newId ax ay b]) n = \<lparr>px = ax + node_x n, py = ay + node_y n\<rparr>"
    and "getAbsoluteRotation (gs @ [new_group newId ax ay b]) n = node_rotation n"
  using assms
  by (simp_all add: getAbsolutePosition_def getAbsoluteRotation_def parent_group_def
        find_group_append_fresh new_group_def group_to_abs_def radians_def position_def)

lemma ungroup_result:
  assumes "selectedIds st = [gid]" "find_group (groups st) gid = Some grp"
    and "distinct (map id_s (shapes st))"
  shows "snd (ungroup st) = None"
    and "shapes (fst (ungroup st)) =
           foldl (pointwise (ungroup_shape (groups st) grp)) (shapes st)
             (filter (\<lambda>k. groupId (shapes st ! k) = Some gid) [0..<length (shapes st)])"
    and "groups (fst (ungroup st)) = filter (\<lambda>g. id_g g \<noteq> gid) (groups st)"
    and "selectedIds (fst (ungroup st)) =
           map (\<lambda>k. id_s (shapes st ! k))
             (filter (\<lambda>k. groupId (shapes st ! k) = Some gid) [0..<length (shapes st)])"
proof -
  have fg: "foldl (ungroup_step (groups st) grp) (shapes st)
              (filter (\<lambda>k. groupId (shapes st ! k) = Some gid) [0..<length (shapes st)]) =
            foldl (pointwise (ungroup_shape (groups st) grp)) (shapes st)
              (filter (\<lambda>k. groupId (shapes st ! k) = Some gid) [0..<length (shapes st)])"
    using assms(3) by (intro foldl_ungroup_step) simp_all
  show "snd (ungroup st) = None" using assms(1,2) by (simp add: ungroup_def Let_def)
  show "shapes (fst (ungroup st)) =
           foldl (pointwise (ungroup_shape (groups st) grp)) (shapes st)
             (filter (\<lambda>k. groupId (shapes st ! k) = Some gid) [0..<length (shapes st)])"
    using assms(1,2) fg by (simp add: ungroup_def Let_def)
  show "groups (fst (ungroup st)) = filter (\<lambda>g. id_g g \<noteq> gid) (groups st)"
    using assms(1,2) by (simp add: ungroup_def Let_def)
  show "selectedIds (fst (ungroup st)) =
           map (\<lambda>k. id_s (shapes st ! k))
             (filter (\<lambda>k. groupId (shapes st ! k) = Some gid) [0..<length (shapes st)])"
    using assms(1,2) by (simp add: ungroup_def Let_def)
qed

lemma foldl_pointwise_ids:
  assumes "\<And>s. id_s (f s) = id_s s"
  shows "map id_s (foldl (pointwise f) us ks) = map id_s us"
  by (induction ks arbitrary: us) (simp_all add: pointwise_ids assms)

lemma createNewGroup_ids:
  assumes "distinct (map id_s (shapes st))" "2 \<le> length (shapesToGroup st)"
  shows "map id_s (shapes (fst (createNewGroup now st))) = map id_s (shapes st)"
  unfolding createNewGroup_result(3)[OF assms]
  by (rule foldl_pointwise_ids) (simp add: group_shape_def)

lemma filter_fresh_group:
  "i \<notin> set (map id_g gs) \<Longrightarrow> id_g g = i \<Longrightarrow> filter (\<lambda>h. id_g h \<noteq> i) (gs @ [g]) = gs"
  by (induction gs) auto

lemma abs_at_root:
  "node_parent n = None \<Longrightarrow> getAbsolutePosition gs n = position n"
  "node_parent n = None \<Longrightarrow> getAbsoluteRotation gs n = node_rotation n"
  by (simp_all add: getAbsolutePosition_def getAbsoluteRotation_def parent_group_def)

lemma axis_distance: "sqrt (t\<^sup>2) = \<bar>t\<bar>" for t :: real
  by simp



lemma lt48: "4 \<le> i \<Longrightarrow> i < (8::nat) \<Longrightarrow> i = 4 \<or> i = 5 \<or> i = 6 \<or> i = 7" by arith


lemma merge_view:
  assumes d: "distinct (map id_s (shapes st))"
    and sel: "2 \<le> length (selectedIds st)"
    and sg: "selectedGroups st = [G]"
    and some: "\<exists>k \<in> set (selectedShapes st). not_member_of G (shapes st ! k)"
  shows "(map groupId (shapes (fst (createGroup now st))), map id_g (groups (fst (createGroup now st)))) =
         snd (foldl (gid_step (map id_g (groups st)) (id_g G))
                (map groupId (shapes st), map groupId (shapes st), map id_g (groups st))
                (shapesToAdd st G))"
proof -
  let ?ks = "shapesToAdd st G"
  let ?L = "foldl (add_step (groups st) G) (add_loop_start st) ?ks"
  have cg: "createGroup now st = ((addShapesToGroup G ?ks st)\<lparr>selectedIds := [id_g G]\<rparr>, None)"
    using sel sg some by (rule createGroup_merges)
  have sh: "shapes (fst (createGroup now st)) = updatedShapes ?L"
    and gr: "map id_g (groups (fst (createGroup now st))) = map id_g (pending_groups ?L)"
    using cg by (simp_all add: addShapesToGroup_view)
  have v: "view ?L = foldl (gid_step (map id_g (groups st)) (id_g G)) (view (add_loop_start st)) ?ks"
    using d shapesToAdd_bound[of _ st G]
    by (intro view_foldl_add_step) (simp_all add: add_loop_start_def)
  have "snd (view ?L) = (map groupId (updatedShapes ?L), map id_g (pending_groups ?L))"
    by (simp add: view_def)
  then show ?thesis unfolding sh gr v by (simp add: view_def add_loop_start_def)
qed

lemma MIN_VALUE_pos: "0 < MIN_VALUE"
  by (simp add: MIN_VALUE_def)

lemma MAX_VALUE_large: "2 ^ 53 \<le> MAX_VALUE"
proof -
  have "(2::real) ^ 53 * 1 \<le> (2 ^ 53 - 1) * 2 ^ 971"
    by (rule order_trans[of _ "(2::real) ^ 53 * 2"]) simp_all
  then show ?thesis by (simp add: MAX_VALUE_def)
qed

lemma min_MAX_VALUE: "x \<le> 2 ^ 53 \<Longrightarrow> min MAX_VALUE x = x"
  using MAX_VALUE_large by (simp add: min_def)

lemma max_MIN_VALUE: "x \<le> 0 \<Longrightarrow> max MIN_VALUE x = MIN_VALUE"
  using MIN_VALUE_pos by (simp add: max_def)

lemma negative_scene_step: "updatedShapes (add_step (groups negative_scene) (ex_group ''group-103'' 1000 1000)
           (add_loop_start negative_scene) 2) =
   [ex_rect ''rect-101'' (-300) (-300) (Some ''group-103''),
    ex_circle ''circle-102'' (-200) (-200) (Some ''group-103''),
    ex_rect ''rect-104'' (-900) (-900) (Some ''group-103'')]"
  by (simp add: add_step_def remove_from_old_group_def move_into_group_def add_loop_start_def
      negative_scene_def scene_simps truthy_def Let_def getAbsolutePosition_def getAbsoluteRotation_def
      parent_group_def position_def group_getAbsolutePosition_def group_getAbsoluteRotation_def
      set_groupId_by_id_def)

lemma negative_scene_pending: "pending_groups (add_step (groups negative_scene) (ex_group ''group-103'' 1000 1000)
           (add_loop_start negative_scene) 2) = [ex_group ''group-103'' 1000 1000]"
  by (simp add: add_step_def remove_from_old_group_def move_into_group_def add_loop_start_def
      negative_scene_def scene_simps truthy_def Let_def)

lemma negative_scene_background: "backgroundNode (updateGroupBoundingBox (ex_group ''group-103'' 1000 1000)
   [ex_rect ''rect-101'' (-300) (-300) (Some ''group-103''),
    ex_circle ''circle-102'' (-200) (-200) (Some ''group-103''),
    ex_rect ''rect-104'' (-900) (-900) (Some ''group-103'')]) =
   \<lparr>bg_x = - 960, bg_y = - 935, bg_width = MIN_VALUE + 960, bg_height = MIN_VALUE + 935\<rparr>"
  by (simp add: updateGroupBoundingBox_def outlinePoints_def position_def scene_simps Let_def
       initial_bounds_def extend_bounds_def background_of_def min_MAX_VALUE max_MIN_VALUE)

lemma handleShapeClick_on_its_shapes: "(find (\<lambda>s. id_s s = X) (shapes st) = Some shape \<and> groupId shape = Some G \<and> G \<noteq> [] \<longrightarrow>
     selectedIds (handleShapeClick X False st) = [G] \<and>
     set (selectedIds (handleShapeClick X True st)) =
       (if G \<in> set (selectedIds st) then set (selectedIds st) - {G} else insert G (set (selectedIds st))))
  \<and> (find (\<lambda>s. id_s s = X) (shapes st) = None \<or>
      (find (\<lambda>s. id_s s = X) (shapes st) = Some shape \<and> groupId shape = None) \<longrightarrow>
     selectedIds (handleShapeClick X False st) = [X] \<and>
     set (selectedIds (handleShapeClick X True st)) =
       (if X \<in> set (selectedIds st) then set (selectedIds st) - {X} else insert X (set (selectedIds st))))"
  by (auto simp add: handleShapeClick_def truthy_def toggle_set)

lemma built_pair_eq: "built_pair = two_loose"
  by (simp add: built_pair_def registered_click_def handleShapeClick_def addCircle_def
      addRectangle_def initial_state_def string_of_nat.simps digit_char_def scene_simps
      toggle_def truthy_def)

lemma find_first: "xs \<noteq> [] \<Longrightarrow> P (xs ! 0) \<Longrightarrow> find P xs = Some (xs ! 0)"
  by (cases xs) simp_all

lemma move_into_group_shapes:
  assumes "distinct (map id_s (updatedShapes L))" "k < length (updatedShapes L)"
  shows "updatedShapes (move_into_group gs G k L) =
           (updatedShapes L)[k := moved_into gs G (updatedShapes L ! k)]"
    and "orig_groupId (move_into_group gs G k L) = orig_groupId L"
    and "pending_groups (move_into_group gs G k L) = pending_groups L"
proof -
  show "orig_groupId (move_into_group gs G k L) = orig_groupId L"
    and "pending_groups (move_into_group gs G k L) = pending_groups L"
    by (simp_all add: move_into_group_def Let_def)
  have z: "gnode_rotation (node_g G) * pi / 180 = 0 \<longleftrightarrow> gnode_rotation (node_g G) = 0" by simp
  show "updatedShapes (move_into_group gs G k L) =
           (updatedShapes L)[k := moved_into gs G (updatedShapes L ! k)]"
    using assms
    by (simp add: move_into_group_def Let_def set_groupId_after_node_update(2) moved_into_def
          group_getAbsolutePosition_def group_getAbsoluteRotation_def radians_def)
qed

lemma moved_into_release: "moved_into gs G (release_shape gs s) = moved_into gs G s"
  by (simp add: moved_into_def release_shape_def Let_def getAbsolutePosition_def
        getAbsoluteRotation_def parent_group_def position_def)

lemma remove_from_old_group_shapes:
  "updatedShapes (remove_from_old_group gs k L) =
     (if dissolves (map id_g gs) (orig_groupId L) k
      then map (\<lambda>s. if groupId s = orig_groupId L ! k then release_shape gs s else s) (updatedShapes L)
      else updatedShapes L)"
  "orig_groupId (remove_from_old_group gs k L) =
     (if dissolves (map id_g gs) (orig_groupId L) k
      then map2 (\<lambda>a s. if groupId s = orig_groupId L ! k then None else a)
             (orig_groupId L) (updatedShapes L)
      else orig_groupId L)"
  "pending_groups (remove_from_old_group gs k L) =
     (if dissolves (map id_g gs) (orig_groupId L) k
      then filter (\<lambda>g. id_g g \<noteq> the (orig_groupId L ! k)) (pending_groups L)
      else pending_groups L)"
proof -
  have "updatedShapes (remove_from_old_group gs k L) =
     (if dissolves (map id_g gs) (orig_groupId L) k
      then map (\<lambda>s. if groupId s = orig_groupId L ! k then release_shape gs s else s) (updatedShapes L)
      else updatedShapes L)
   \<and> orig_groupId (remove_from_old_group gs k L) =
     (if dissolves (map id_g gs) (orig_groupId L) k
      then map2 (\<lambda>a s. if groupId s = orig_groupId L ! k then None else a)
             (orig_groupId L) (updatedShapes L)
      else orig_groupId L)
   \<and> pending_groups (remove_from_old_group gs k L) =
     (if dissolves (map id_g gs) (orig_groupId L) k
      then filter (\<lambda>g. id_g g \<noteq> the (orig_groupId L ! k)) (pending_groups L)
      else pending_groups L)"
  proof (cases "truthy (orig_groupId L ! k)")
    case False
    then show ?thesis by (simp add: remove_from_old_group_def dissolves_def)
  next
    case True
    then obtain old where old: "orig_groupId L ! k = Some old"
      by (auto simp: truthy_def split: option.splits)
    show ?thesis
    proof (cases "find_group gs old")
      case None
      moreover from None have "old \<notin> set (map id_g gs)" by (simp add: find_group_None)
      ultimately show ?thesis using True old
        by (simp add: remove_from_old_group_def dissolves_def)
    next
      case (Some g)
      then have g: "id_g g = old" "old \<in> set (map id_g gs)"
        using find_group_Some[OF Some] by auto
      show ?thesis using True old Some g
        by (simp add: remove_from_old_group_def dissolves_def)
    qed
  qed
  then show "updatedShapes (remove_from_old_group gs k L) =
     (if dissolves (map id_g gs) (orig_groupId L) k
      then map (\<lambda>s. if groupId s = orig_groupId L ! k then release_shape gs s else s) (updatedShapes L)
      else updatedShapes L)"
  "orig_groupId (remove_from_old_group gs k L) =
     (if dissolves (map id_g gs) (orig_groupId L) k
      then map2 (\<lambda>a s. if groupId s = orig_groupId L ! k then None else a)
             (orig_groupId L) (updatedShapes L)
      else orig_groupId L)"
  "pending_groups (remove_from_old_group gs k L) =
     (if dissolves (map id_g gs) (orig_groupId L) k
      then filter (\<lambda>g. id_g g \<noteq> the (orig_groupId L ! k)) (pending_groups L)
      else pending_groups L)"
    by blast+
qed

lemma hit_same_group:
  "groupId (S ! i) = groupId (S ! j) \<Longrightarrow> hit gs S D i = hit gs S D j"
  by (simp add: hit_def)

lemma hit_insert:
  "hit gs S (insert k D) i \<longleftrightarrow>
     hit gs S D i \<or> (\<exists>old. groupId (S ! k) = Some old \<and> groupId (S ! i) = Some old \<and> dissolvable gs S old)"
  by (auto simp: hit_def)

lemma hit_member:
  "k \<in> D \<Longrightarrow> groupId (S ! k) = Some old \<Longrightarrow> dissolvable gs S old \<Longrightarrow> hit gs S D k"
  by (auto simp: hit_def)

lemma filter_length_eq:
  assumes "length xs = length ys" "\<forall>i < length xs. P (xs ! i) \<longleftrightarrow> Q (ys ! i)"
  shows "length (filter P xs) = length (filter Q ys)"
proof -
  have "length (filter P xs) \<le> length (filter Q ys)"
    using assms by (intro filter_length_mono) auto
  moreover have "length (filter Q ys) \<le> length (filter P xs)"
    using assms by (intro filter_length_mono) auto
  ultimately show ?thesis by simp
qed

lemma moved_into_fields [simp]:
  "id_s (moved_into gs G s) = id_s s" "groupId (moved_into gs G s) = Some (id_g G)"
  by (simp_all add: moved_into_def)

lemma add_inv_ids:
  assumes "add_inv gs G S D L"
  shows "map id_s (updatedShapes L) = map id_s S"
proof (rule nth_equalityI)
  show "length (map id_s (updatedShapes L)) = length (map id_s S)"
    using assms by (simp add: add_inv_def)
next
  fix i assume "i < length (map id_s (updatedShapes L))"
  then have i: "i < length S" using assms by (simp add: add_inv_def)
  then have "id_s (updatedShapes L ! i) = id_s (S ! i)"
    using assms by (simp add: add_inv_def)
  then show "map id_s (updatedShapes L) ! i = map id_s S ! i"
    using i assms by (simp add: add_inv_def)
qed

text \<open>Under the invariant the loop dissolves the old group of \<open>k\<close> exactly when that group
  can be dissolved and has not been yet.\<close>

lemma add_inv_dissolves:
  assumes inv: "add_inv gs G S D L" and k: "k < length S"
  shows "dissolves (map id_g gs) (orig_groupId L) k \<longleftrightarrow>
           \<not> hit gs S D k \<and> (\<exists>old. groupId (S ! k) = Some old \<and> dissolvable gs S old)"
proof (cases "hit gs S D k")
  case True
  then have "orig_groupId L ! k = None" using inv k by (simp add: add_inv_def)
  then show ?thesis using True by (simp add: dissolves_def truthy_def)
next
  case False
  then have ok: "orig_groupId L ! k = groupId (S ! k)" using inv k by (simp add: add_inv_def)
  show ?thesis
  proof (cases "groupId (S ! k)")
    case None
    then show ?thesis using ok by (simp add: dissolves_def truthy_def)
  next
    case (Some old)
    have same: "\<forall>i < length (orig_groupId L). (orig_groupId L ! i = Some old) \<longleftrightarrow> (groupId (S ! i) = Some old)"
    proof (intro allI impI)
      fix i assume "i < length (orig_groupId L)"
      then have i: "i < length S" using inv by (simp add: add_inv_def)
      have oi: "orig_groupId L ! i = (if hit gs S D i then None else groupId (S ! i))"
        using inv i by (simp add: add_inv_def)
      show "(orig_groupId L ! i = Some old) \<longleftrightarrow> (groupId (S ! i) = Some old)"
      proof
        assume "orig_groupId L ! i = Some old"
        then show "groupId (S ! i) = Some old" using oi by (simp split: if_splits)
      next
        assume g: "groupId (S ! i) = Some old"
        then have "hit gs S D i = hit gs S D k" using Some by (intro hit_same_group) simp
        then show "orig_groupId L ! i = Some old" using oi g False by simp
      qed
    qed
    have len: "length (orig_groupId L) = length S" using inv by (simp add: add_inv_def)
    have cnt: "length (filter (\<lambda>g. g = Some old) (orig_groupId L)) =
               length (filter (\<lambda>s. groupId s = Some old) S)"
      using len same by (intro filter_length_eq) auto
    show ?thesis using False ok Some cnt
      by (auto simp: dissolves_def truthy_def dissolvable_def)
  qed
qed

lemma add_inv_remove:
  assumes inv: "add_inv gs G S D L" and k: "k < length S" and kD: "k \<notin> D"
    and nt: "groupId (S ! k) \<noteq> Some (id_g G)"
  shows "length (updatedShapes (remove_from_old_group gs k L)) = length S"
    and "length (orig_groupId (remove_from_old_group gs k L)) = length S"
    and "\<forall>i < length S.
          orig_groupId (remove_from_old_group gs k L) ! i =
            (if hit gs S (insert k D) i then None else groupId (S ! i)) \<and>
          updatedShapes (remove_from_old_group gs k L) ! i =
            (if i \<in> D then moved_into gs G (S ! i)
             else if hit gs S (insert k D) i then release_shape gs (S ! i) else S ! i)"
    and "pending_groups (remove_from_old_group gs k L) =
           filter (\<lambda>g. \<not> (\<exists>j \<in> insert k D. groupId (S ! j) = Some (id_g g) \<and>
                                  dissolvable gs S (id_g g))) gs"
proof -
  let ?L1 = "remove_from_old_group gs k L"
  let ?dis = "dissolves (map id_g gs) (orig_groupId L) k"
  from inv have lu: "length (updatedShapes L) = length S" and lo: "length (orig_groupId L) = length S"
    and og: "\<And>i. i < length S \<Longrightarrow>
                orig_groupId L ! i = (if hit gs S D i then None else groupId (S ! i))"
    and us: "\<And>i. i < length S \<Longrightarrow> updatedShapes L ! i =
          (if i \<in> D then moved_into gs G (S ! i)
           else if hit gs S D i then release_shape gs (S ! i) else S ! i)"
    and pg: "pending_groups L =
       filter (\<lambda>g. \<not> (\<exists>j \<in> D. groupId (S ! j) = Some (id_g g) \<and> dissolvable gs S (id_g g))) gs"
    by (simp_all add: add_inv_def)
  note crit = add_inv_dissolves[OF inv k]
  show l1: "length (updatedShapes ?L1) = length S" by (simp add: lu)
  show l2: "length (orig_groupId ?L1) = length S"
    by (simp add: remove_from_old_group_shapes(2) lo lu)
  show "\<forall>i < length S.
          orig_groupId ?L1 ! i = (if hit gs S (insert k D) i then None else groupId (S ! i)) \<and>
          updatedShapes ?L1 ! i =
            (if i \<in> D then moved_into gs G (S ! i)
             else if hit gs S (insert k D) i then release_shape gs (S ! i) else S ! i)"
  proof (intro allI impI)
    fix i assume i: "i < length S"
    show "orig_groupId ?L1 ! i = (if hit gs S (insert k D) i then None else groupId (S ! i)) \<and>
          updatedShapes ?L1 ! i =
            (if i \<in> D then moved_into gs G (S ! i)
             else if hit gs S (insert k D) i then release_shape gs (S ! i) else S ! i)"
    proof (cases ?dis)
      case True
      with crit obtain old where nh: "\<not> hit gs S D k" and gk: "groupId (S ! k) = Some old"
        and dv: "dissolvable gs S old" by blast
      have ok: "orig_groupId L ! k = Some old" using og[OF k] nh gk by simp
      have ot: "old \<noteq> id_g G" using nt gk by auto
      have h': "hit gs S (insert k D) i \<longleftrightarrow> hit gs S D i \<or> groupId (S ! i) = Some old"
        using gk dv by (auto simp: hit_insert)
      have gi: "groupId (updatedShapes L ! i) = Some old \<longleftrightarrow> groupId (S ! i) = Some old"
      proof
        assume "groupId (updatedShapes L ! i) = Some old"
        then show "groupId (S ! i) = Some old"
          using us[OF i] ot by (auto split: if_splits)
      next
        assume g: "groupId (S ! i) = Some old"
        then have hi: "\<not> hit gs S D i" using hit_same_group[of S i k gs D] gk nh by simp
        have "i \<notin> D" using hit_member[of i D S old gs] g dv hi by blast
        then show "groupId (updatedShapes L ! i) = Some old" using us[OF i] hi g by simp
      qed
      have u1: "updatedShapes ?L1 ! i =
          (if groupId (S ! i) = Some old then release_shape gs (updatedShapes L ! i)
           else updatedShapes L ! i)"
        using True i lu ok gi by (simp add: remove_from_old_group_shapes(1))
      have o1: "orig_groupId ?L1 ! i = (if groupId (S ! i) = Some old then None else orig_groupId L ! i)"
        using True i lu lo ok gi by (simp add: remove_from_old_group_shapes(2))
      show ?thesis
      proof (cases "groupId (S ! i) = Some old")
        case g: True
        then have hi: "\<not> hit gs S D i" using hit_same_group[of S i k gs D] gk nh by simp
        have iD: "i \<notin> D" using hit_member[of i D S old gs] g dv hi by blast
        have "updatedShapes L ! i = S ! i" using us[OF i] hi iD by simp
        then show ?thesis using u1 o1 g h' iD by simp
      next
        case False
        then show ?thesis using u1 o1 h' us[OF i] og[OF i] by simp
      qed
    next
      case False
      have h': "hit gs S (insert k D) i \<longleftrightarrow> hit gs S D i"
      proof -
        have "hit gs S D i" if "groupId (S ! k) = Some old" "groupId (S ! i) = Some old"
          "dissolvable gs S old" for old
        proof -
          have "hit gs S D k" using False crit that by blast
          then show ?thesis using hit_same_group[of S i k gs D] that by simp
        qed
        then show ?thesis by (auto simp: hit_insert)
      qed
      show ?thesis using False h' us[OF i] og[OF i]
        by (simp add: remove_from_old_group_shapes)
    qed
  qed
  show "pending_groups ?L1 =
           filter (\<lambda>g. \<not> (\<exists>j \<in> insert k D. groupId (S ! j) = Some (id_g g) \<and>
                                  dissolvable gs S (id_g g))) gs"
  proof (cases ?dis)
    case True
    with crit obtain old where nh: "\<not> hit gs S D k" and gk: "groupId (S ! k) = Some old"
      and dv: "dissolvable gs S old" by blast
    have ok: "orig_groupId L ! k = Some old" using og[OF k] nh gk by simp
    have "pending_groups ?L1 = filter (\<lambda>g. id_g g \<noteq> old) (pending_groups L)"
      using True ok by (simp add: remove_from_old_group_shapes(3))
    also have "\<dots> = filter (\<lambda>g. \<not> (\<exists>j \<in> insert k D. groupId (S ! j) = Some (id_g g) \<and>
                                  dissolvable gs S (id_g g))) gs"
      unfolding pg filter_filter using gk dv by (intro filter_cong refl) auto
    finally show ?thesis .
  next
    case False
    have "(\<exists>j \<in> D. groupId (S ! j) = Some (id_g g) \<and> dissolvable gs S (id_g g))"
      if "groupId (S ! k) = Some (id_g g)" "dissolvable gs S (id_g g)" for g
    proof -
      have "hit gs S D k" using False crit that by blast
      then show ?thesis using that by (auto simp: hit_def)
    qed
    then have "filter (\<lambda>g. \<not> (\<exists>j \<in> D. groupId (S ! j) = Some (id_g g) \<and> dissolvable gs S (id_g g))) gs =
          filter (\<lambda>g. \<not> (\<exists>j \<in> insert k D. groupId (S ! j) = Some (id_g g) \<and>
                                  dissolvable gs S (id_g g))) gs"
      by (intro filter_cong refl) auto
    then show ?thesis using False pg by (simp add: remove_from_old_group_shapes(3))
  qed
qed

lemma add_inv_step:
  assumes inv: "add_inv gs G S D L" and d: "distinct (map id_s S)" and k: "k < length S"
    and kD: "k \<notin> D" and nt: "groupId (S ! k) \<noteq> Some (id_g G)"
  shows "add_inv gs G S (insert k D) (add_step gs G L k)"
proof -
  let ?L1 = "remove_from_old_group gs k L"
  note R = add_inv_remove[OF inv k kD nt]
  have ids1: "map id_s (updatedShapes ?L1) = map id_s S" using add_inv_ids[OF inv] by simp
  have d1: "distinct (map id_s (updatedShapes ?L1))" using ids1 d by simp
  have k1: "k < length (updatedShapes ?L1)" using R(1) k by simp
  note M = move_into_group_shapes[OF d1 k1, of gs G]
  have uk: "updatedShapes ?L1 ! k =
      (if hit gs S (insert k D) k then release_shape gs (S ! k) else S ! k)"
    using R(3) k kD by simp
  have mk: "moved_into gs G (updatedShapes ?L1 ! k) = moved_into gs G (S ! k)"
    unfolding uk by (simp add: moved_into_release)
  have "\<forall>i < length S.
          orig_groupId (add_step gs G L k) ! i =
            (if hit gs S (insert k D) i then None else groupId (S ! i)) \<and>
          updatedShapes (add_step gs G L k) ! i =
            (if i \<in> insert k D then moved_into gs G (S ! i)
             else if hit gs S (insert k D) i then release_shape gs (S ! i) else S ! i)"
  proof (intro allI impI)
    fix i assume i: "i < length S"
    have i1: "i < length (updatedShapes ?L1)" using R(1) i by simp
    have ri: "orig_groupId ?L1 ! i = (if hit gs S (insert k D) i then None else groupId (S ! i))"
      and ui: "updatedShapes ?L1 ! i =
            (if i \<in> D then moved_into gs G (S ! i)
             else if hit gs S (insert k D) i then release_shape gs (S ! i) else S ! i)"
      using R(3) i by simp_all
    show "orig_groupId (add_step gs G L k) ! i =
            (if hit gs S (insert k D) i then None else groupId (S ! i)) \<and>
          updatedShapes (add_step gs G L k) ! i =
            (if i \<in> insert k D then moved_into gs G (S ! i)
             else if hit gs S (insert k D) i then release_shape gs (S ! i) else S ! i)"
    proof (cases "i = k")
      case True
      then show ?thesis unfolding add_step_def M using ri i1 mk by simp
    next
      case False
      then show ?thesis unfolding add_step_def M using ri ui i1 by simp
    qed
  qed
  moreover have "length (updatedShapes (add_step gs G L k)) = length S"
    "length (orig_groupId (add_step gs G L k)) = length S"
    unfolding add_step_def M using R(1,2) by simp_all
  moreover have "pending_groups (add_step gs G L k) =
           filter (\<lambda>g. \<not> (\<exists>j \<in> insert k D. groupId (S ! j) = Some (id_g g) \<and>
                                  dissolvable gs S (id_g g))) gs"
    unfolding add_step_def M by (rule R(4))
  ultimately show ?thesis unfolding add_inv_def by blast
qed

lemma add_inv_foldl:
  assumes "add_inv gs G S D L" "distinct (map id_s S)" "distinct ks" "set ks \<inter> D = {}"
    and "\<forall>k \<in> set ks. k < length S \<and> groupId (S ! k) \<noteq> Some (id_g G)"
  shows "add_inv gs G S (D \<union> set ks) (foldl (add_step gs G) L ks)"
  using assms
proof (induction ks arbitrary: D L)
  case Nil
  then show ?case by simp
next
  case (Cons k ks)
  have s: "add_inv gs G S (insert k D) (add_step gs G L k)"
    using Cons.prems by (intro add_inv_step) auto
  have "add_inv gs G S (insert k D \<union> set ks) (foldl (add_step gs G) (add_step gs G L k) ks)"
    using s Cons.prems by (intro Cons.IH) auto
  then show ?case by simp
qed

lemma add_inv_start: "add_inv (groups st) G (shapes st) {} (add_loop_start st)"
  by (simp add: add_inv_def add_loop_start_def hit_def)

lemma shapesToAdd_distinct: "distinct (shapesToAdd st G)"
  by (simp add: shapesToAdd_def selectedShapes_def)

lemma add_loop_result:
  assumes "distinct (map id_s (shapes st))" "id_g G \<noteq> []"
  shows "add_inv (groups st) G (shapes st) (set (shapesToAdd st G))
           (foldl (add_step (groups st) G) (add_loop_start st) (shapesToAdd st G))"
proof -
  have "add_inv (groups st) G (shapes st) ({} \<union> set (shapesToAdd st G))
           (foldl (add_step (groups st) G) (add_loop_start st) (shapesToAdd st G))"
    using assms shapesToAdd_bound[of _ st G] shapesToAdd_not_member[of _ st G]
    by (intro add_inv_foldl add_inv_start shapesToAdd_distinct) auto
  then show ?thesis by simp
qed

lemma findIndex_find:
  "findIndex Q xs = Some j \<Longrightarrow> find Q xs = Some (xs ! j) \<and> j < length xs"
proof (induction xs arbitrary: j)
  case Nil
  then show ?case by simp
next
  case (Cons a xs)
  then show ?case by (auto split: if_splits option.splits)
qed

lemma find_filter_same:
  "(\<And>x. Q x \<Longrightarrow> P x) \<Longrightarrow> find Q (filter P xs) = find Q xs"
  by (induction xs) auto

lemma replace_group_nodes:
  assumes f: "find_group gs (id_g G) = Some G"
    and keep: "\<And>g. id_g g = id_g G \<Longrightarrow> P g"
    and same: "id_g g' = id_g G" "node_g g' = node_g G"
  shows "map node_g (replace_group g' (filter P gs)) = map node_g (filter P gs)"
proof (cases "findIndex (\<lambda>h. id_g h = id_g g') (filter P gs)")
  case None
  then show ?thesis by (simp add: replace_group_def)
next
  case (Some j)
  have "find (\<lambda>h. id_g h = id_g G) (filter P gs) = find (\<lambda>h. id_g h = id_g G) gs"
    by (rule find_filter_same) (rule keep)
  then have "find (\<lambda>h. id_g h = id_g G) (filter P gs) = Some G"
    using f by (simp add: find_group_def)
  moreover have "find (\<lambda>h. id_g h = id_g G) (filter P gs) = Some (filter P gs ! j)"
    using findIndex_find[OF Some] same(1) by simp
  ultimately have "filter P gs ! j = G" by simp
  then have "node_g g' = node_g (filter P gs ! j)" using same(2) by simp
  then show ?thesis using Some by (simp add: replace_group_def map_update_same)
qed

lemma selectedGroups_single_find:
  assumes "selectedGroups st = [G]"
  shows "find_group (groups st) (id_g G) = Some G"
proof -
  have "G \<in> set (selectedGroups st)" using assms by simp
  then obtain i where i: "find_group (groups st) i = Some G"
    by (auto simp: selectedGroups_def List.map_filter_def)
  then show ?thesis using find_group_Some[OF i] by simp
qed

lemma updateGroupBoundingBox_fields [simp]:
  "id_g (updateGroupBoundingBox g ss) = id_g g" "node_g (updateGroupBoundingBox g ss) = node_g g"
  by (simp_all add: updateGroupBoundingBox_def Let_def)

lemma addShapesToGroup_groups:
  "groups (addShapesToGroup G ks st) =
     replace_group (updateGroupBoundingBox G
        (filter (\<lambda>shape. groupId shape = Some (id_g G))
           (updatedShapes (foldl (add_step (groups st) G) (add_loop_start st) ks))))
       (pending_groups (foldl (add_step (groups st) G) (add_loop_start st) ks))"
  "hoveredId (addShapesToGroup G ks st) = hoveredId st"
  by (simp_all add: addShapesToGroup_def Let_def)

lemma createNewGroup_hover:
  "hoveredId (fst (createNewGroup now st)) = hoveredId st"
  by (simp add: createNewGroup_def Let_def)

section \<open>The claims\<close>

text \<open>
  C6. A click on a grouped shape does not select its group. The handler of a shape is
  the \<open>handleShapeClick\<close> of the render before the shape was appended to \<open>shapes\<close>, so
  its \<open>shapes.find\<close> never finds the shape and the click selects the shape's own id.
  From the empty canvas: a rectangle and a circle are added, both are selected and
  grouped; the rectangle now has the new group as \<open>groupId\<close>, and an unmodified click on
  it replaces the selection with the rectangle's id. The same \<open>handleShapeClick\<close> run
  on the current \<open>shapes\<close> would select the group.
\<close>

theorem click_on_grouped_shape_selects_shape:
  "built_pair = two_loose
   \<and> shapes initial_state = []
   \<and> id_s (shapes (fst (createGroup 200 built_pair)) ! 0) = ''rect-101''
   \<and> groupId (shapes (fst (createGroup 200 built_pair)) ! 0) = Some ''group-200''
   \<and> selectedIds (fst (createGroup 200 built_pair)) = [''group-200'']
   \<and> selectedIds (registered_click (shapes initial_state) ''rect-101'' False
                    (fst (createGroup 200 built_pair))) = [''rect-101'']
   \<and> selectedIds (handleShapeClick ''rect-101'' False (fst (createGroup 200 built_pair)))
        = [''group-200'']"
proof -
  define st' where "st' = fst (createGroup 200 two_loose)"
  have a1: "distinct (map id_s (shapes two_loose))" by (simp add: scene_simps)
  have a2: "2 \<le> length (selectedIds two_loose)" by (simp add: scene_simps)
  have a3: "shapesToGroup two_loose = [0, 1]" by (simp add: scene_simps selection_simps)
  have a3': "2 \<le> length (shapesToGroup two_loose)" by (simp add: a3)
  have a4: "length (selectedGroups two_loose) \<noteq> 1" by (simp add: scene_simps selection_simps)
  have id: "new_group_id 200 = ''group-200''"
    by (simp add: new_group_id_def string_of_nat.simps digit_char_def)
  have cg: "createGroup 200 two_loose = createNewGroup 200 two_loose"
    using a2 a4 by (rule createGroup_new)
  have sel: "selectedIds st' = [''group-200'']"
    using createNewGroup_result(2)[OF a1 a3', of 200] by (simp add: st'_def cg id)
  have ids0: "map id_s (shapes two_loose) = [''rect-101'', ''circle-102'']"
    and len0: "0 < length (shapes two_loose)"
    and s0: "id_s (shapes two_loose ! 0) = ''rect-101''"
    by (simp_all add: scene_simps)
  have ids: "map id_s (shapes st') = [''rect-101'', ''circle-102'']"
    unfolding st'_def cg createNewGroup_ids[OF a1 a3'] by (rule ids0)
  have in0: "0 \<in> set (shapesToGroup two_loose)" by (simp add: a3)
  have "shapes st' ! 0 = group_shape (groups two_loose) (new_group_id 200)
          (px (group_center two_loose)) (py (group_center two_loose)) (shapes two_loose ! 0)"
    unfolding st'_def cg createNewGroup_shape_nth[OF a1 a3' len0] using in0 by simp
  then have g0: "groupId (shapes st' ! 0) = Some ''group-200''" and i0: "id_s (shapes st' ! 0) = ''rect-101''"
    by (simp_all add: group_shape_def id s0)
  have ne: "shapes st' \<noteq> []" using ids by auto
  have f: "find (\<lambda>s. id_s s = ''rect-101'') (shapes st') = Some (shapes st' ! 0)"
    using ne i0 by (rule find_first)
  have h: "selectedIds (handleShapeClick ''rect-101'' False st') = [''group-200'']"
    by (simp add: handleShapeClick_def f g0 truthy_def)
  have r: "selectedIds (registered_click (shapes initial_state) ''rect-101'' False st') = [''rect-101'']"
    by (simp add: registered_click_def handleShapeClick_def initial_state_def)
  have e: "shapes initial_state = []" by (simp add: initial_state_def)
  show ?thesis
    using built_pair_eq e i0 g0 sel r h unfolding st'_def built_pair_eq by simp
qed

text \<open>
  C3. Whenever \<open>createGroup\<close> or \<open>ungroup\<close> raises an alert the state it leaves is the
  state it found (shapes with their \<open>groupId\<close> and Konva parent, groups, selection and
  hover). Each precondition violation raises one: fewer than two selected ids; fewer
  than two ungrouped selected shapes when a new group is to be made; one selected group
  of which every implicated shape is already a member; and, for \<open>ungroup\<close>, a selection
  that is not exactly one existing group.
\<close>

theorem precondition_violation_aborts:
  "(snd (createGroup now st) \<noteq> None \<longrightarrow> fst (createGroup now st) = st)
   \<and> (snd (ungroup st) \<noteq> None \<longrightarrow> fst (ungroup st) = st)
   \<and> (length (selectedIds st) < 2 \<longrightarrow> snd (createGroup now st) \<noteq> None)
   \<and> ((length (selectedGroups st) \<noteq> 1 \<or> selectedShapes st = []) \<and> length (shapesToGroup st) < 2
        \<longrightarrow> snd (createGroup now st) \<noteq> None)
   \<and> (length (selectedGroups st) = 1 \<and>
        (\<forall>k \<in> set (selectedShapes st). \<not> not_member_of (hd (selectedGroups st)) (shapes st ! k))
        \<longrightarrow> snd (createGroup now st) \<noteq> None)
   \<and> (length (selectedIds st) \<noteq> 1 \<or> find_group (groups st) (hd (selectedIds st)) = None
        \<longrightarrow> snd (ungroup st) \<noteq> None)"
proof (intro conjI impI)
  assume "snd (createGroup now st) \<noteq> None"
  then obtain msg where "createGroup now st = (fst (createGroup now st), Some msg)"
    by (metis not_Some_eq prod.collapse)
  then show "fst (createGroup now st) = st" by (rule createGroup_alert)
next
  assume "snd (ungroup st) \<noteq> None"
  then obtain msg where "ungroup st = (fst (ungroup st), Some msg)"
    by (metis not_Some_eq prod.collapse)
  then show "fst (ungroup st) = st" by (rule ungroup_alert)
next
  assume "length (selectedIds st) < 2"
  then show "snd (createGroup now st) \<noteq> None" by (simp add: createGroup_def)
next
  assume a: "(length (selectedGroups st) \<noteq> 1 \<or> selectedShapes st = []) \<and> length (shapesToGroup st) < 2"
  then have "createGroup now st = (st, Some ''Please select at least 2 shapes to group'')
           \<or> createGroup now st = createNewGroup now st"
    by (auto simp: createGroup_def)
  moreover have "snd (createNewGroup now st) \<noteq> None"
    using a by (simp add: createNewGroup_def)
  ultimately show "snd (createGroup now st) \<noteq> None" by auto
next
  assume a: "length (selectedGroups st) = 1 \<and>
        (\<forall>k \<in> set (selectedShapes st). \<not> not_member_of (hd (selectedGroups st)) (shapes st ! k))"
  then have e: "shapesToAdd st (hd (selectedGroups st)) = []"
    by (simp add: shapesToAdd_def filter_empty_conv)
  have sub: "set (shapesToGroup st) \<subseteq> set (selectedShapes st)"
    by (auto simp: shapesToGroup_def selectedShapes_def is_selected_shape_def)
  show "snd (createGroup now st) \<noteq> None"
  proof (cases "selectedShapes st = []")
    case True
    then have "shapesToGroup st = []" using sub by simp
    then show ?thesis using a True by (simp add: createGroup_def createNewGroup_def)
  next
    case False
    then show ?thesis using a e by (simp add: createGroup_def addToExisting_def)
  qed
next
  assume "length (selectedIds st) \<noteq> 1 \<or> find_group (groups st) (hd (selectedIds st)) = None"
  then show "snd (ungroup st) \<noteq> None" by (auto simp: ungroup_def)
qed

theorem precondition_violation_aborts_witness:
  "fst (createGroup 200 (merge_scene [''rect-104''])) = merge_scene [''rect-104'']
   \<and> fst (ungroup (merge_scene [''rect-104''])) = merge_scene [''rect-104'']
   \<and> snd (createGroup 200 (merge_scene [''rect-101'', ''rect-104''])) \<noteq> None
   \<and> snd (createGroup 200 (merge_scene [''group-103'', ''rect-101''])) \<noteq> None"
proof -
  have h1: "length (selectedIds (merge_scene [''rect-104''])) < 2"
    by (simp add: scene_simps)
  have h2: "find_group (groups (merge_scene [''rect-104''])) (hd (selectedIds (merge_scene [''rect-104'']))) = None"
    by (simp add: scene_simps find_group_def)
  have h3: "selectedGroups (merge_scene [''rect-101'', ''rect-104'']) = []"
    by (simp add: scene_simps selection_simps)
  have h4: "shapesToGroup (merge_scene [''rect-101'', ''rect-104'']) = [2]"
    by (simp add: scene_simps selection_simps)
  have h5: "selectedGroups (merge_scene [''group-103'', ''rect-101'']) = [ex_group ''group-103'' 300 300]"
    by (simp add: scene_simps selection_simps)
  have h6: "selectedShapes (merge_scene [''group-103'', ''rect-101'']) = [0, 1]"
    by (simp add: scene_simps selection_simps)
  have h7: "\<forall>k \<in> set [0, 1::nat]. \<not> not_member_of (ex_group ''group-103'' 300 300)
       (shapes (merge_scene [''group-103'', ''rect-101'']) ! k)"
    by (simp add: scene_simps selection_simps)
  show ?thesis
    using precondition_violation_aborts[of 200 "merge_scene [''rect-104'']"]
      precondition_violation_aborts[of 200 "merge_scene [''rect-101'', ''rect-104'']"]
      precondition_violation_aborts[of 200 "merge_scene [''group-103'', ''rect-101'']"]
      h1 h2 h3 h4 h5 h6 h7 by simp
qed


text \<open>
  C10. When the selection is two ids that both resolve to groups and neither is the id
  of an ungrouped shape, \<open>createGroup\<close> raises the alert of the new-group path and
  leaves the state as it was: the two groups are not merged.
\<close>

theorem two_groups_not_merged:
  assumes "selectedIds st = [g1, g2]"
    and "find_group (groups st) g1 \<noteq> None" and "find_group (groups st) g2 \<noteq> None"
    and "\<forall>s \<in> set (shapes st). id_s s \<in> {g1, g2} \<longrightarrow> truthy (groupId s)"
  shows "createGroup now st =
           (st, Some ''Please select at least 2 ungrouped shapes to create a new group'')"
proof -
  have sg: "length (selectedGroups st) = 2"
    using assms(1-3) by (auto simp: selectedGroups_def List.map_filter_def)
  have "shapesToGroup st = []"
    using assms(1,4) by (auto simp: shapesToGroup_def filter_empty_conv)
  then show ?thesis
    using sg assms(1) by (simp add: createGroup_def createNewGroup_def)
qed

theorem two_groups_not_merged_witness:
  "createGroup 200 (two_groups_scene [''group-104'', ''group-107'']) =
     (two_groups_scene [''group-104'', ''group-107''],
      Some ''Please select at least 2 ungrouped shapes to create a new group'')"
proof -
  have h1: "selectedIds (two_groups_scene [''group-104'', ''group-107'']) = [''group-104'', ''group-107'']"
    by (simp add: scene_simps)
  have h2: "find_group (groups (two_groups_scene [''group-104'', ''group-107''])) ''group-104'' \<noteq> None"
    by (simp add: scene_simps find_group_def)
  have h3: "find_group (groups (two_groups_scene [''group-104'', ''group-107''])) ''group-107'' \<noteq> None"
    by (simp add: scene_simps find_group_def)
  have h4: "\<forall>s \<in> set (shapes (two_groups_scene [''group-104'', ''group-107''])).
              id_s s \<in> {''group-104'', ''group-107''} \<longrightarrow> truthy (groupId s)"
    by (simp add: scene_simps truthy_def)
  show ?thesis by (rule two_groups_not_merged[OF h1 h2 h3 h4])
qed

text \<open>
  C4. When exactly one selected id resolves to a group \<open>G\<close> and some implicated shape is not
  a member of \<open>G\<close>, \<open>createGroup\<close> raises no alert and makes no new group: every group id
  afterwards was one before, \<open>G\<close> is still there, the members of \<open>G\<close> afterwards are its
  members before together with the shapes added, and the selection is \<open>[G]\<close>. A group of
  at most two members that one of the added shapes came from is gone afterwards, and no
  shape names it any more.

  The shapes added are the implicated shapes that are not members of \<open>G\<close>. Each of them
  ends with \<open>G\<close> as \<open>groupId\<close> and as Konva parent, not draggable, at its former absolute
  position taken into the space of \<open>G\<close> (translated by minus the position of \<open>G\<close>,
  rotated by minus its rotation) and at its former absolute rotation less that of \<open>G\<close>.
  A shape that is not added and whose group is dissolved goes back to the layer: no
  \<open>groupId\<close>, no Konva parent, draggable, at its former absolute position and rotation.
  Every other shape is untouched; the groups afterwards are the groups before without the
  dissolved ones, each where it was, and the hover is as it was. (Shape ids are distinct
  and the id of \<open>G\<close> is not empty.)
\<close>

theorem merge_into_selected_group:
  assumes d: "distinct (map id_s (shapes st))"
    and sel: "2 \<le> length (selectedIds st)"
    and sg: "selectedGroups st = [G]" and ne: "id_g G \<noteq> []"
    and some: "\<exists>k \<in> set (selectedShapes st). not_member_of G (shapes st ! k)"
  shows "snd (createGroup now st) = None
       \<and> selectedIds (fst (createGroup now st)) = [id_g G]
       \<and> set (map id_g (groups (fst (createGroup now st)))) \<subseteq> set (map id_g (groups st))
       \<and> id_g G \<in> set (map id_g (groups (fst (createGroup now st))))
       \<and> map id_s (shapes (fst (createGroup now st))) = map id_s (shapes st)
       \<and> (\<forall>i < length (shapes st).
            groupId (shapes (fst (createGroup now st)) ! i) = Some (id_g G) \<longleftrightarrow>
              i \<in> set (shapesToAdd st G) \<or> groupId (shapes st ! i) = Some (id_g G))
       \<and> (\<forall>k \<in> set (shapesToAdd st G). \<forall>old.
            groupId (shapes st ! k) = Some old \<and> old \<noteq> [] \<and> old \<in> set (map id_g (groups st)) \<and>
            length (filter (\<lambda>s. groupId s = Some old) (shapes st)) \<le> 2 \<longrightarrow>
              old \<notin> set (map id_g (groups (fst (createGroup now st)))) \<and>
              (\<forall>s \<in> set (shapes (fst (createGroup now st))). groupId s \<noteq> Some old))
       \<and> (\<forall>k. k \<in> set (shapesToAdd st G) \<longleftrightarrow>
              k < length (shapes st) \<and>
              (id_s (shapes st ! k) \<in> set (selectedIds st) \<or>
               truthy (groupId (shapes st ! k)) \<and> the (groupId (shapes st ! k)) \<in> set (selectedIds st)) \<and>
              (\<not> truthy (groupId (shapes st ! k)) \<or> groupId (shapes st ! k) \<noteq> Some (id_g G)))
       \<and> (\<forall>k \<in> set (shapesToAdd st G).
            shapes (fst (createGroup now st)) ! k =
              (shapes st ! k)
                \<lparr>node_s := (node_s (shapes st ! k))
                   \<lparr>node_x :=
                      (px (getAbsolutePosition (groups st) (node_s (shapes st ! k))) - gnode_x (node_g G))
                        * cos (- radians (gnode_rotation (node_g G)))
                      - (py (getAbsolutePosition (groups st) (node_s (shapes st ! k))) - gnode_y (node_g G))
                        * sin (- radians (gnode_rotation (node_g G))),
                    node_y :=
                      (px (getAbsolutePosition (groups st) (node_s (shapes st ! k))) - gnode_x (node_g G))
                        * sin (- radians (gnode_rotation (node_g G)))
                      + (py (getAbsolutePosition (groups st) (node_s (shapes st ! k))) - gnode_y (node_g G))
                        * cos (- radians (gnode_rotation (node_g G))),
                    node_rotation :=
                      getAbsoluteRotation (groups st) (node_s (shapes st ! k)) - gnode_rotation (node_g G),
                    node_draggable := False,
                    node_parent := Some (id_g G)\<rparr>,
                 groupId := Some (id_g G)\<rparr>)
       \<and> (\<forall>k \<in> set (shapesToAdd st G). \<forall>old.
            groupId (shapes st ! k) = Some old \<and> old \<noteq> [] \<and> old \<in> set (map id_g (groups st)) \<and>
            length (filter (\<lambda>s. groupId s = Some old) (shapes st)) \<le> 2 \<longrightarrow>
              (\<forall>i < length (shapes st).
                 i \<notin> set (shapesToAdd st G) \<and> groupId (shapes st ! i) = Some old \<longrightarrow>
                   shapes (fst (createGroup now st)) ! i =
                     (shapes st ! i)
                       \<lparr>node_s := (node_s (shapes st ! i))
                          \<lparr>node_x := px (getAbsolutePosition (groups st) (node_s (shapes st ! i))),
                           node_y := py (getAbsolutePosition (groups st) (node_s (shapes st ! i))),
                           node_rotation := getAbsoluteRotation (groups st) (node_s (shapes st ! i)),
                           node_draggable := True,
                           node_parent := None\<rparr>,
                        groupId := None\<rparr>))
       \<and> (\<forall>i < length (shapes st).
            i \<notin> set (shapesToAdd st G) \<and>
            \<not> (\<exists>k \<in> set (shapesToAdd st G). \<exists>old.
                  groupId (shapes st ! k) = Some old \<and> groupId (shapes st ! i) = Some old \<and>
                  old \<noteq> [] \<and> old \<in> set (map id_g (groups st)) \<and>
                  length (filter (\<lambda>s. groupId s = Some old) (shapes st)) \<le> 2) \<longrightarrow>
              shapes (fst (createGroup now st)) ! i = shapes st ! i)
       \<and> map id_g (groups (fst (createGroup now st))) =
           filter (\<lambda>g. \<not> (\<exists>k \<in> set (shapesToAdd st G).
                          groupId (shapes st ! k) = Some g \<and> g \<noteq> [] \<and>
                          g \<in> set (map id_g (groups st)) \<and>
                          length (filter (\<lambda>s. groupId s = Some g) (shapes st)) \<le> 2))
             (map id_g (groups st))
       \<and> map node_g (groups (fst (createGroup now st))) =
           map node_g
             (filter (\<lambda>g. \<not> (\<exists>k \<in> set (shapesToAdd st G).
                          groupId (shapes st ! k) = Some (id_g g) \<and> id_g g \<noteq> [] \<and>
                          id_g g \<in> set (map id_g (groups st)) \<and>
                          length (filter (\<lambda>s. groupId s = Some (id_g g)) (shapes st)) \<le> 2))
                (groups st))
       \<and> hoveredId (fst (createGroup now st)) = hoveredId st"
proof -
  let ?ks = "shapesToAdd st G"
  let ?L = "foldl (add_step (groups st) G) (add_loop_start st) ?ks"
  let ?v0 = "view (add_loop_start st)"
  let ?st' = "fst (createGroup now st)"
  have cg: "createGroup now st = ((addShapesToGroup G ?ks st)\<lparr>selectedIds := [id_g G]\<rparr>, None)"
    using sel sg some by (rule createGroup_merges)
  have sh: "shapes ?st' = updatedShapes ?L"
    and gr: "map id_g (groups ?st') = map id_g (pending_groups ?L)"
    using cg by (simp_all add: addShapesToGroup_view)
  have v: "view ?L = foldl (gid_step (map id_g (groups st)) (id_g G)) ?v0 ?ks"
    using d shapesToAdd_bound[of _ st G]
    by (intro view_foldl_add_step) (simp_all add: add_loop_start_def)
  have lk: "linked (id_g G) ?ks ?v0" using ne by (rule linked_start)
  note props = foldl_gid_step_props[OF lk, of "map id_g (groups st)", folded v]
  have v0: "fst ?v0 = map groupId (shapes st)" "fst (snd ?v0) = map groupId (shapes st)"
    "snd (snd ?v0) = map id_g (groups st)"
    by (simp_all add: view_def add_loop_start_def)
  have vL: "fst (snd (view ?L)) = map groupId (updatedShapes ?L)"
    "snd (snd (view ?L)) = map id_g (pending_groups ?L)"
    by (simp_all add: view_def)
  have len: "length (updatedShapes ?L) = length (shapes st)"
    using props vL v0 by simp
  have c1: "snd (createGroup now st) = None" and c2: "selectedIds ?st' = [id_g G]"
    using cg by simp_all
  have c3: "set (map id_g (groups ?st')) \<subseteq> set (map id_g (groups st))"
    using props vL v0 gr by simp
  have "id_g G \<in> set (map id_g (groups st))" using selectedGroups_single(1)[OF sg] by simp
  then have c4: "id_g G \<in> set (map id_g (groups ?st'))"
    using props vL v0 gr by simp
  have c5: "map id_s (shapes ?st') = map id_s (shapes st)"
    using sh by (simp add: add_loop_start_def)
  have c6: "\<forall>i < length (shapes st).
            groupId (shapes ?st' ! i) = Some (id_g G) \<longleftrightarrow>
              i \<in> set ?ks \<or> groupId (shapes st ! i) = Some (id_g G)"
  proof (intro allI impI)
    fix i assume i: "i < length (shapes st)"
    have "fst (snd (view ?L)) ! i = Some (id_g G) \<longleftrightarrow> i \<in> set ?ks \<or> fst (snd ?v0) ! i = Some (id_g G)"
      using props i v0 by simp
    then show "groupId (shapes ?st' ! i) = Some (id_g G) \<longleftrightarrow>
              i \<in> set ?ks \<or> groupId (shapes st ! i) = Some (id_g G)"
      using i len sh vL v0 by simp
  qed
  have c7: "\<forall>k \<in> set ?ks. \<forall>old.
            groupId (shapes st ! k) = Some old \<and> old \<noteq> [] \<and> old \<in> set (map id_g (groups st)) \<and>
            length (filter (\<lambda>s. groupId s = Some old) (shapes st)) \<le> 2 \<longrightarrow>
              old \<notin> set (map id_g (groups ?st')) \<and>
              (\<forall>s \<in> set (shapes ?st'). groupId s \<noteq> Some old)"
  proof (intro ballI allI impI)
    fix k old
    assume k: "k \<in> set ?ks"
      and o: "groupId (shapes st ! k) = Some old \<and> old \<noteq> [] \<and> old \<in> set (map id_g (groups st)) \<and>
            length (filter (\<lambda>s. groupId s = Some old) (shapes st)) \<le> 2"
    have kl: "k < length (shapes st)" using k by (rule shapesToAdd_bound)
    have nt: "old \<noteq> id_g G" using shapesToAdd_not_member[OF k ne] o by auto
    have cnt: "length (filter (\<lambda>g. g = Some old) (fst ?v0)) \<le> 2"
      using o by (simp add: v0 filter_map comp_def)
    have "fst ?v0 ! k = Some old" using kl o by (simp add: v0)
    then have ex: "\<exists>k \<in> set ?ks. fst ?v0 ! k = Some old" using k by blast
    have "dissolved old (view ?L)"
      unfolding v using lk nt _ _ cnt ex by (rule foldl_gid_step_dissolves) (use o in simp_all)
    then have a: "old \<notin> set (map id_g (pending_groups ?L))"
      and b: "\<forall>i < length (updatedShapes ?L). groupId (updatedShapes ?L ! i) \<noteq> Some old"
      by (simp_all add: dissolved_def vL)
    from b have "\<forall>s \<in> set (updatedShapes ?L). groupId s \<noteq> Some old"
      by (metis in_set_conv_nth)
    then show "old \<notin> set (map id_g (groups ?st')) \<and>
              (\<forall>s \<in> set (shapes ?st'). groupId s \<noteq> Some old)"
      using a gr sh by simp
  qed
  have inv: "add_inv (groups st) G (shapes st) (set ?ks) ?L"
    using d ne by (rule add_loop_result)
  have nth: "\<And>i. i < length (shapes st) \<Longrightarrow> shapes ?st' ! i =
          (if i \<in> set ?ks then moved_into (groups st) G (shapes st ! i)
           else if hit (groups st) (shapes st) (set ?ks) i then release_shape (groups st) (shapes st ! i)
           else shapes st ! i)"
    using inv unfolding sh by (simp add: add_inv_def)
  have n4: "\<forall>k. k \<in> set ?ks \<longleftrightarrow>
              k < length (shapes st) \<and>
              (id_s (shapes st ! k) \<in> set (selectedIds st) \<or>
               truthy (groupId (shapes st ! k)) \<and> the (groupId (shapes st ! k)) \<in> set (selectedIds st)) \<and>
              (\<not> truthy (groupId (shapes st ! k)) \<or> groupId (shapes st ! k) \<noteq> Some (id_g G))"
    by (auto simp: shapesToAdd_def selectedShapes_def is_selected_shape_def not_member_of_def)
  have n1: "\<forall>k \<in> set ?ks. shapes ?st' ! k = moved_into (groups st) G (shapes st ! k)"
    using nth shapesToAdd_bound[of _ st G] by simp
  have n2: "\<forall>k \<in> set ?ks. \<forall>old.
            groupId (shapes st ! k) = Some old \<and> old \<noteq> [] \<and> old \<in> set (map id_g (groups st)) \<and>
            length (filter (\<lambda>s. groupId s = Some old) (shapes st)) \<le> 2 \<longrightarrow>
              (\<forall>i < length (shapes st).
                 i \<notin> set ?ks \<and> groupId (shapes st ! i) = Some old \<longrightarrow>
                   shapes ?st' ! i = release_shape (groups st) (shapes st ! i))"
  proof (intro ballI allI impI)
    fix k old i
    assume k: "k \<in> set ?ks"
      and o: "groupId (shapes st ! k) = Some old \<and> old \<noteq> [] \<and> old \<in> set (map id_g (groups st)) \<and>
            length (filter (\<lambda>s. groupId s = Some old) (shapes st)) \<le> 2"
      and i: "i < length (shapes st)"
      and io: "i \<notin> set ?ks \<and> groupId (shapes st ! i) = Some old"
    have "hit (groups st) (shapes st) (set ?ks) i"
      unfolding hit_def dissolvable_def using k o io by blast
    then show "shapes ?st' ! i = release_shape (groups st) (shapes st ! i)"
      using nth[OF i] io by simp
  qed
  have n3: "\<forall>i < length (shapes st).
            i \<notin> set ?ks \<and>
            \<not> (\<exists>k \<in> set ?ks. \<exists>old.
                  groupId (shapes st ! k) = Some old \<and> groupId (shapes st ! i) = Some old \<and>
                  old \<noteq> [] \<and> old \<in> set (map id_g (groups st)) \<and>
                  length (filter (\<lambda>s. groupId s = Some old) (shapes st)) \<le> 2) \<longrightarrow>
              shapes ?st' ! i = shapes st ! i"
  proof (intro allI impI)
    fix i
    assume i: "i < length (shapes st)"
      and a: "i \<notin> set ?ks \<and>
            \<not> (\<exists>k \<in> set ?ks. \<exists>old.
                  groupId (shapes st ! k) = Some old \<and> groupId (shapes st ! i) = Some old \<and>
                  old \<noteq> [] \<and> old \<in> set (map id_g (groups st)) \<and>
                  length (filter (\<lambda>s. groupId s = Some old) (shapes st)) \<le> 2)"
    then have "\<not> hit (groups st) (shapes st) (set ?ks) i"
      unfolding hit_def dissolvable_def by blast
    then show "shapes ?st' ! i = shapes st ! i" using nth[OF i] a by simp
  qed
  have n0: "map id_g (groups ?st') =
           filter (\<lambda>g. \<not> (\<exists>k \<in> set ?ks.
                          groupId (shapes st ! k) = Some g \<and> g \<noteq> [] \<and>
                          g \<in> set (map id_g (groups st)) \<and>
                          length (filter (\<lambda>s. groupId s = Some g) (shapes st)) \<le> 2))
             (map id_g (groups st))"
  proof -
    have "pending_groups ?L =
       filter (\<lambda>g. \<not> (\<exists>k \<in> set ?ks. groupId (shapes st ! k) = Some (id_g g) \<and>
                              dissolvable (groups st) (shapes st) (id_g g))) (groups st)"
      using inv by (simp add: add_inv_def)
    then show ?thesis unfolding gr by (simp add: filter_map comp_def dissolvable_def)
  qed
  have n5: "map node_g (groups ?st') =
           map node_g
             (filter (\<lambda>g. \<not> (\<exists>k \<in> set ?ks.
                          groupId (shapes st ! k) = Some (id_g g) \<and> id_g g \<noteq> [] \<and>
                          id_g g \<in> set (map id_g (groups st)) \<and>
                          length (filter (\<lambda>s. groupId s = Some (id_g g)) (shapes st)) \<le> 2))
                (groups st))"
  proof -
    have pg: "pending_groups ?L =
       filter (\<lambda>g. \<not> (\<exists>k \<in> set ?ks. groupId (shapes st ! k) = Some (id_g g) \<and>
                              dissolvable (groups st) (shapes st) (id_g g))) (groups st)"
      using inv by (simp add: add_inv_def)
    have keep: "\<And>g. id_g g = id_g G \<Longrightarrow>
        \<not> (\<exists>k \<in> set ?ks. groupId (shapes st ! k) = Some (id_g g) \<and>
                              dissolvable (groups st) (shapes st) (id_g g))"
      using shapesToAdd_not_member[of _ st G, OF _ ne] by auto
    have "groups ?st' = replace_group (updateGroupBoundingBox G
        (filter (\<lambda>shape. groupId shape = Some (id_g G)) (updatedShapes ?L))) (pending_groups ?L)"
      using cg by (simp add: addShapesToGroup_groups(1))
    moreover have "map node_g (replace_group (updateGroupBoundingBox G
        (filter (\<lambda>shape. groupId shape = Some (id_g G)) (updatedShapes ?L))) (pending_groups ?L))
        = map node_g (pending_groups ?L)"
      unfolding pg
      by (rule replace_group_nodes[where G = G, OF selectedGroups_single_find[OF sg]])
         (erule keep, simp_all)
    ultimately have "map node_g (groups ?st') = map node_g (pending_groups ?L)" by simp
    then show ?thesis unfolding pg by (simp add: dissolvable_def)
  qed
  have n6: "hoveredId ?st' = hoveredId st" using cg by (simp add: addShapesToGroup_groups(2))
  show ?thesis
    using c1 c2 c3 c4 c5 c6 c7 n4 n1[unfolded moved_into_def] n2[unfolded release_shape_def Let_def] n3 n0
      n5 n6
    by (intro conjI)
qed

theorem merge_into_selected_group_witness:
  "distinct (map id_s (shapes (merge_scene [''rect-104'', ''group-103''])))
   \<and> selectedGroups (merge_scene [''rect-104'', ''group-103'']) = [ex_group ''group-103'' 300 300]
   \<and> shapesToAdd (merge_scene [''rect-104'', ''group-103'']) (ex_group ''group-103'' 300 300) = [2]
   \<and> snd (createGroup 200 (merge_scene [''rect-104'', ''group-103''])) = None
   \<and> selectedIds (fst (createGroup 200 (merge_scene [''rect-104'', ''group-103'']))) = [''group-103'']
   \<and> map id_g (groups (fst (createGroup 200 (merge_scene [''rect-104'', ''group-103'']))))
        = [''group-103'']
   \<and> shapes (fst (createGroup 200 (merge_scene [''rect-104'', ''group-103'']))) ! 0
        = ex_rect ''rect-101'' (- 100) 0 (Some ''group-103'')
   \<and> groupId (shapes (fst (createGroup 200 (merge_scene [''rect-104'', ''group-103'']))) ! 0)
        = Some ''group-103''
   \<and> shapes (fst (createGroup 200 (merge_scene [''rect-104'', ''group-103'']))) ! 2
        = ex_rect ''rect-104'' 400 200 (Some ''group-103'')
   \<and> shapesToAdd (pairs_scene [''group-107'', ''rect-101'']) (ex_group ''group-107'' 800 600) = [2]
   \<and> map id_g (groups (fst (createGroup 200 (pairs_scene [''group-107'', ''rect-101'']))))
        = [''group-107'']
   \<and> shapes (fst (createGroup 200 (pairs_scene [''group-107'', ''rect-101'']))) ! 2
        = ex_rect ''rect-101'' (- 500) (- 500) (Some ''group-107'')
   \<and> shapes (fst (createGroup 200 (pairs_scene [''group-107'', ''rect-101'']))) ! 3
        = ex_rect ''rect-102'' 500 100 None
   \<and> groupId (shapes (fst (createGroup 200 (pairs_scene [''group-107'', ''rect-101'']))) ! 3)
        \<noteq> Some ''group-103''"
proof -
  define A where "A = merge_scene [''rect-104'', ''group-103'']"
  define G where "G = ex_group ''group-103'' 300 300"
  define A' where "A' = fst (createGroup 200 A)"
  have a1: "distinct (map id_s (shapes A))" by (simp add: A_def scene_simps)
  have a2: "2 \<le> length (selectedIds A)" by (simp add: A_def scene_simps)
  have a3: "selectedGroups A = [G]" by (simp add: A_def G_def scene_simps selection_simps)
  have a4: "id_g G \<noteq> []" by (simp add: G_def scene_simps)
  have a5: "selectedShapes A = [0, 1, 2]" by (simp add: A_def scene_simps selection_simps)
  have a6: "shapesToAdd A G = [2]"
    by (simp add: shapesToAdd_def a5) (simp add: A_def G_def scene_simps selection_simps)
  have a7: "\<exists>k \<in> set (selectedShapes A). not_member_of G (shapes A ! k)"
    unfolding a5 by (simp add: A_def G_def scene_simps selection_simps)
  have a8: "map id_g (groups A) = [''group-103'']" "length (shapes A) = 3" "id_g G = ''group-103''"
    by (simp_all add: A_def G_def scene_simps)
  have a9: "groupId (shapes A ! 0) = Some ''group-103''" "groupId (shapes A ! 2) = None"
    "shapes A ! 0 = ex_rect ''rect-101'' (- 100) 0 (Some ''group-103'')"
    "shapes A ! 2 = ex_rect ''rect-104'' 700 500 None"
    by (simp_all add: A_def scene_simps)
  have a10: "getAbsolutePosition (groups A) (node_s (ex_rect ''rect-104'' 700 500 None)) = \<lparr>px = 700, py = 500\<rparr>"
    "getAbsoluteRotation (groups A) (node_s (ex_rect ''rect-104'' 700 500 None)) = 0"
    "node_g G = \<lparr>gnode_x = 300, gnode_y = 300, gnode_rotation = 0, gnode_scaleX = 1, gnode_scaleY = 1\<rparr>"
    by (simp_all add: G_def scene_simps getAbsolutePosition_def getAbsoluteRotation_def
          parent_group_def position_def)
  note T = merge_into_selected_group[OF a1 a2 a3 a4 a7, of 200, folded A'_def, unfolded a6 a8]
  have t1: "snd (createGroup 200 A) = None" by (rule T[THEN conjunct1])
  have t2: "selectedIds A' = [''group-103'']" by (rule T[THEN conjunct2, THEN conjunct1])
  have t6: "\<forall>i < 3. groupId (shapes A' ! i) = Some ''group-103'' \<longleftrightarrow>
              i \<in> set [2] \<or> groupId (shapes A ! i) = Some ''group-103''" by (rule T[THEN conjunct2, THEN conjunct2, THEN conjunct2, THEN conjunct2, THEN conjunct2, THEN conjunct1])
  have m0: "groupId (shapes A' ! 0) = Some ''group-103''" using t6 a9(1) by simp
  have t9: "\<forall>k \<in> set [2::nat].
            shapes A' ! k =
              (shapes A ! k)
                \<lparr>node_s := (node_s (shapes A ! k))
                   \<lparr>node_x :=
                      (px (getAbsolutePosition (groups A) (node_s (shapes A ! k))) - gnode_x (node_g G))
                        * cos (- radians (gnode_rotation (node_g G)))
                      - (py (getAbsolutePosition (groups A) (node_s (shapes A ! k))) - gnode_y (node_g G))
                        * sin (- radians (gnode_rotation (node_g G))),
                    node_y :=
                      (px (getAbsolutePosition (groups A) (node_s (shapes A ! k))) - gnode_x (node_g G))
                        * sin (- radians (gnode_rotation (node_g G)))
                      + (py (getAbsolutePosition (groups A) (node_s (shapes A ! k))) - gnode_y (node_g G))
                        * cos (- radians (gnode_rotation (node_g G))),
                    node_rotation :=
                      getAbsoluteRotation (groups A) (node_s (shapes A ! k)) - gnode_rotation (node_g G),
                    node_draggable := False,
                    node_parent := Some ''group-103''\<rparr>,
                 groupId := Some ''group-103''\<rparr>" by (rule T[THEN conjunct2, THEN conjunct2, THEN conjunct2, THEN conjunct2, THEN conjunct2, THEN conjunct2, THEN conjunct2, THEN conjunct2, THEN conjunct1])
  have t9i: "shapes A' ! 2 =
              (shapes A ! 2)
                \<lparr>node_s := (node_s (shapes A ! 2))
                   \<lparr>node_x :=
                      (px (getAbsolutePosition (groups A) (node_s (shapes A ! 2))) - gnode_x (node_g G))
                        * cos (- radians (gnode_rotation (node_g G)))
                      - (py (getAbsolutePosition (groups A) (node_s (shapes A ! 2))) - gnode_y (node_g G))
                        * sin (- radians (gnode_rotation (node_g G))),
                    node_y :=
                      (px (getAbsolutePosition (groups A) (node_s (shapes A ! 2))) - gnode_x (node_g G))
                        * sin (- radians (gnode_rotation (node_g G)))
                      + (py (getAbsolutePosition (groups A) (node_s (shapes A ! 2))) - gnode_y (node_g G))
                        * cos (- radians (gnode_rotation (node_g G))),
                    node_rotation :=
                      getAbsoluteRotation (groups A) (node_s (shapes A ! 2)) - gnode_rotation (node_g G),
                    node_draggable := False,
                    node_parent := Some ''group-103''\<rparr>,
                 groupId := Some ''group-103''\<rparr>"
    using t9 by (rule bspec) simp
  have m2: "shapes A' ! 2 = ex_rect ''rect-104'' 400 200 (Some ''group-103'')"
    unfolding t9i unfolding a9(4) a10 by (simp add: radians_def ex_rect_def)
  have t11: "\<forall>i < 3.
            i \<notin> set [2] \<and>
            \<not> (\<exists>k \<in> set [2]. \<exists>old.
                  groupId (shapes A ! k) = Some old \<and> groupId (shapes A ! i) = Some old \<and>
                  old \<noteq> [] \<and> old \<in> set [''group-103''] \<and>
                  length (filter (\<lambda>s. groupId s = Some old) (shapes A)) \<le> 2) \<longrightarrow>
              shapes A' ! i = shapes A ! i" by (rule T[THEN conjunct2, THEN conjunct2, THEN conjunct2, THEN conjunct2, THEN conjunct2, THEN conjunct2, THEN conjunct2, THEN conjunct2, THEN conjunct2, THEN conjunct2, THEN conjunct1])
  have f0: "shapes A' ! 0 = ex_rect ''rect-101'' (- 100) 0 (Some ''group-103'')"
    using t11 a9(2) a9(3) by simp
  have t12: "map id_g (groups A') =
           filter (\<lambda>g. \<not> (\<exists>k \<in> set [2].
                          groupId (shapes A ! k) = Some g \<and> g \<noteq> [] \<and>
                          g \<in> set [''group-103''] \<and>
                          length (filter (\<lambda>s. groupId s = Some g) (shapes A)) \<le> 2))
             [''group-103'']" by (rule T[THEN conjunct2, THEN conjunct2, THEN conjunct2, THEN conjunct2, THEN conjunct2, THEN conjunct2, THEN conjunct2, THEN conjunct2, THEN conjunct2, THEN conjunct2, THEN conjunct2, THEN conjunct1])
  have gA: "map id_g (groups A') = [''group-103'']" unfolding t12 by (simp add: a9(2))
  define B where "B = pairs_scene [''group-107'', ''rect-101'']"
  define H where "H = ex_group ''group-107'' 800 600"
  define B' where "B' = fst (createGroup 200 B)"
  have b1: "distinct (map id_s (shapes B))" by (simp add: B_def scene_simps)
  have b2: "2 \<le> length (selectedIds B)" by (simp add: B_def scene_simps)
  have b3: "selectedGroups B = [H]" by (simp add: B_def H_def scene_simps selection_simps)
  have b4: "id_g H \<noteq> []" by (simp add: H_def scene_simps)
  have b5: "selectedShapes B = [0, 1, 2]" by (simp add: B_def scene_simps selection_simps)
  have b6: "shapesToAdd B H = [2]"
    by (simp add: shapesToAdd_def b5) (simp add: B_def H_def scene_simps selection_simps)
  have b7: "\<exists>k \<in> set (selectedShapes B). not_member_of H (shapes B ! k)"
    unfolding b5 by (simp add: B_def H_def scene_simps selection_simps)
  have b8: "map id_g (groups B) = [''group-103'', ''group-107'']" "length (shapes B) = 4"
    "id_g H = ''group-107''"
    by (simp_all add: B_def H_def scene_simps)
  have b9: "groupId (shapes B ! 2) = Some ''group-103''" "groupId (shapes B ! 3) = Some ''group-103''"
    "shapes B ! 2 = ex_rect ''rect-101'' (- 100) 0 (Some ''group-103'')"
    "shapes B ! 3 = ex_rect ''rect-102'' 100 0 (Some ''group-103'')"
    by (simp_all add: B_def scene_simps)
  have b10: "length (filter (\<lambda>s. groupId s = Some ''group-103'') (shapes B)) \<le> 2"
    by (simp add: B_def scene_simps)
  have b11: "getAbsolutePosition (groups B) (node_s (ex_rect ''rect-101'' (- 100) 0 (Some ''group-103'')))
               = \<lparr>px = 300, py = 100\<rparr>"
    "getAbsolutePosition (groups B) (node_s (ex_rect ''rect-102'' 100 0 (Some ''group-103'')))
               = \<lparr>px = 500, py = 100\<rparr>"
    "getAbsoluteRotation (groups B) (node_s (ex_rect ''rect-101'' (- 100) 0 (Some ''group-103''))) = 0"
    "getAbsoluteRotation (groups B) (node_s (ex_rect ''rect-102'' 100 0 (Some ''group-103''))) = 0"
    "node_g H = \<lparr>gnode_x = 800, gnode_y = 600, gnode_rotation = 0, gnode_scaleX = 1, gnode_scaleY = 1\<rparr>"
    by (simp_all add: B_def H_def scene_simps getAbsolutePosition_def getAbsoluteRotation_def
          parent_group_def position_def find_group_def group_to_abs_def radians_def)
  note U = merge_into_selected_group[OF b1 b2 b3 b4 b7, of 200, folded B'_def, unfolded b6 b8]
  have u9: "\<forall>k \<in> set [2::nat].
            shapes B' ! k =
              (shapes B ! k)
                \<lparr>node_s := (node_s (shapes B ! k))
                   \<lparr>node_x :=
                      (px (getAbsolutePosition (groups B) (node_s (shapes B ! k))) - gnode_x (node_g H))
                        * cos (- radians (gnode_rotation (node_g H)))
                      - (py (getAbsolutePosition (groups B) (node_s (shapes B ! k))) - gnode_y (node_g H))
                        * sin (- radians (gnode_rotation (node_g H))),
                    node_y :=
                      (px (getAbsolutePosition (groups B) (node_s (shapes B ! k))) - gnode_x (node_g H))
                        * sin (- radians (gnode_rotation (node_g H)))
                      + (py (getAbsolutePosition (groups B) (node_s (shapes B ! k))) - gnode_y (node_g H))
                        * cos (- radians (gnode_rotation (node_g H))),
                    node_rotation :=
                      getAbsoluteRotation (groups B) (node_s (shapes B ! k)) - gnode_rotation (node_g H),
                    node_draggable := False,
                    node_parent := Some ''group-107''\<rparr>,
                 groupId := Some ''group-107''\<rparr>" by (rule U[THEN conjunct2, THEN conjunct2, THEN conjunct2, THEN conjunct2, THEN conjunct2, THEN conjunct2, THEN conjunct2, THEN conjunct2, THEN conjunct1])
  have u9i: "shapes B' ! 2 =
              (shapes B ! 2)
                \<lparr>node_s := (node_s (shapes B ! 2))
                   \<lparr>node_x :=
                      (px (getAbsolutePosition (groups B) (node_s (shapes B ! 2))) - gnode_x (node_g H))
                        * cos (- radians (gnode_rotation (node_g H)))
                      - (py (getAbsolutePosition (groups B) (node_s (shapes B ! 2))) - gnode_y (node_g H))
                        * sin (- radians (gnode_rotation (node_g H))),
                    node_y :=
                      (px (getAbsolutePosition (groups B) (node_s (shapes B ! 2))) - gnode_x (node_g H))
                        * sin (- radians (gnode_rotation (node_g H)))
                      + (py (getAbsolutePosition (groups B) (node_s (shapes B ! 2))) - gnode_y (node_g H))
                        * cos (- radians (gnode_rotation (node_g H))),
                    node_rotation :=
                      getAbsoluteRotation (groups B) (node_s (shapes B ! 2)) - gnode_rotation (node_g H),
                    node_draggable := False,
                    node_parent := Some ''group-107''\<rparr>,
                 groupId := Some ''group-107''\<rparr>"
    using u9 by (rule bspec) simp
  have w2: "shapes B' ! 2 = ex_rect ''rect-101'' (- 500) (- 500) (Some ''group-107'')"
    unfolding u9i unfolding b9(3) b11 by (simp add: radians_def ex_rect_def)
  have u10: "\<forall>k \<in> set [2::nat]. \<forall>old.
            groupId (shapes B ! k) = Some old \<and> old \<noteq> [] \<and> old \<in> set [''group-103'', ''group-107''] \<and>
            length (filter (\<lambda>s. groupId s = Some old) (shapes B)) \<le> 2 \<longrightarrow>
              (\<forall>i < 4.
                 i \<notin> set [2] \<and> groupId (shapes B ! i) = Some old \<longrightarrow>
                   shapes B' ! i =
                     (shapes B ! i)
                       \<lparr>node_s := (node_s (shapes B ! i))
                          \<lparr>node_x := px (getAbsolutePosition (groups B) (node_s (shapes B ! i))),
                           node_y := py (getAbsolutePosition (groups B) (node_s (shapes B ! i))),
                           node_rotation := getAbsoluteRotation (groups B) (node_s (shapes B ! i)),
                           node_draggable := True,
                           node_parent := None\<rparr>,
                        groupId := None\<rparr>)" by (rule U[THEN conjunct2, THEN conjunct2, THEN conjunct2, THEN conjunct2, THEN conjunct2, THEN conjunct2, THEN conjunct2, THEN conjunct2, THEN conjunct2, THEN conjunct1])
  have u10': "shapes B' ! 3 =
                     (shapes B ! 3)
                       \<lparr>node_s := (node_s (shapes B ! 3))
                          \<lparr>node_x := px (getAbsolutePosition (groups B) (node_s (shapes B ! 3))),
                           node_y := py (getAbsolutePosition (groups B) (node_s (shapes B ! 3))),
                           node_rotation := getAbsoluteRotation (groups B) (node_s (shapes B ! 3)),
                           node_draggable := True,
                           node_parent := None\<rparr>,
                        groupId := None\<rparr>"
    using u10 b9(1) b9(2) b10 by simp
  have w3: "shapes B' ! 3 = ex_rect ''rect-102'' 500 100 None"
    unfolding u10' unfolding b9 b11 by (simp add: ex_rect_def)
  have n3: "groupId (shapes B' ! 3) \<noteq> Some ''group-103''" unfolding w3 by (simp add: ex_rect_def)
  have u12: "map id_g (groups B') =
           filter (\<lambda>g. \<not> (\<exists>k \<in> set [2].
                          groupId (shapes B ! k) = Some g \<and> g \<noteq> [] \<and>
                          g \<in> set [''group-103'', ''group-107''] \<and>
                          length (filter (\<lambda>s. groupId s = Some g) (shapes B)) \<le> 2))
             [''group-103'', ''group-107'']" by (rule U[THEN conjunct2, THEN conjunct2, THEN conjunct2, THEN conjunct2, THEN conjunct2, THEN conjunct2, THEN conjunct2, THEN conjunct2, THEN conjunct2, THEN conjunct2, THEN conjunct2, THEN conjunct1])
  have gB: "map id_g (groups B') = [''group-107'']" unfolding u12 by (simp add: b9(1) b10)
  have r: "distinct (map id_s (shapes A)) \<and> selectedGroups A = [G] \<and> shapesToAdd A G = [2]
     \<and> snd (createGroup 200 A) = None \<and> selectedIds A' = [''group-103'']
     \<and> map id_g (groups A') = [''group-103'']
     \<and> shapes A' ! 0 = ex_rect ''rect-101'' (- 100) 0 (Some ''group-103'')
     \<and> groupId (shapes A' ! 0) = Some ''group-103''
     \<and> shapes A' ! 2 = ex_rect ''rect-104'' 400 200 (Some ''group-103'')
     \<and> shapesToAdd B H = [2] \<and> map id_g (groups B') = [''group-107'']
     \<and> shapes B' ! 2 = ex_rect ''rect-101'' (- 500) (- 500) (Some ''group-107'')
     \<and> shapes B' ! 3 = ex_rect ''rect-102'' 500 100 None
     \<and> groupId (shapes B' ! 3) \<noteq> Some ''group-103''"
    by (intro conjI a1 a3 a6 t1 t2 gA f0 m0 m2 b6 gB w2 w3 n3)
  show ?thesis using r unfolding A_def G_def A'_def B_def H_def B'_def .
qed
text \<open>
  C5. With at least two selected ids, at least two of them ungrouped shapes, and not
  exactly one selected group, \<open>createGroup\<close> raises no alert and appends one group: its
  id is the new id, its rotation is 0, its scale 1 and its position is the arithmetic mean of the
  positions of the shapes to group, which are exactly the shapes whose own id is selected
  and that have no group. Each of them changes in exactly this way: it gets the new
  \<open>groupId\<close> and the new group as Konva parent, is no longer draggable, and its local
  position is its former absolute position minus that mean, so that (the new id naming no
  group before) its absolute position is unchanged. Every other shape is untouched, the
  ids of the shapes stay as they were and, the new id being unused as a \<open>groupId\<close>, the
  members of the new group are exactly the shapes to group. The new group is the sole
  selection. (Shape ids are distinct.)
\<close>

theorem new_group_from_ungrouped:
  assumes d: "distinct (map id_s (shapes st))"
    and sel: "2 \<le> length (selectedIds st)"
    and two: "2 \<le> length (shapesToGroup st)"
    and ng: "length (selectedGroups st) \<noteq> 1"
  shows "snd (createGroup now st) = None
       \<and> selectedIds (fst (createGroup now st)) = [new_group_id now]
       \<and> groups (fst (createGroup now st)) = groups st @ [last (groups (fst (createGroup now st)))]
       \<and> id_g (last (groups (fst (createGroup now st)))) = new_group_id now
       \<and> gnode_rotation (node_g (last (groups (fst (createGroup now st))))) = 0
       \<and> gnode_x (node_g (last (groups (fst (createGroup now st))))) =
           sum_list (map (\<lambda>k. node_x (node_s (shapes st ! k))) (shapesToGroup st))
             / real (length (shapesToGroup st))
       \<and> gnode_y (node_g (last (groups (fst (createGroup now st))))) =
           sum_list (map (\<lambda>k. node_y (node_s (shapes st ! k))) (shapesToGroup st))
             / real (length (shapesToGroup st))
       \<and> (\<forall>k \<in> set (shapesToGroup st).
             groupId (shapes (fst (createGroup now st)) ! k) = Some (new_group_id now)
           \<and> node_parent (node_s (shapes (fst (createGroup now st)) ! k)) = Some (new_group_id now)
           \<and> \<not> node_draggable (node_s (shapes (fst (createGroup now st)) ! k))
           \<and> node_x (node_s (shapes (fst (createGroup now st)) ! k)) =
               px (getAbsolutePosition (groups st) (node_s (shapes st ! k)))
                 - gnode_x (node_g (last (groups (fst (createGroup now st)))))
           \<and> node_y (node_s (shapes (fst (createGroup now st)) ! k)) =
               py (getAbsolutePosition (groups st) (node_s (shapes st ! k)))
                 - gnode_y (node_g (last (groups (fst (createGroup now st)))))
           \<and> (new_group_id now \<notin> set (map id_g (groups st)) \<longrightarrow>
                getAbsolutePosition (groups (fst (createGroup now st)))
                  (node_s (shapes (fst (createGroup now st)) ! k)) =
                getAbsolutePosition (groups st) (node_s (shapes st ! k))))
       \<and> (\<forall>k. k \<in> set (shapesToGroup st) \<longleftrightarrow>
              k < length (shapes st) \<and> id_s (shapes st ! k) \<in> set (selectedIds st) \<and>
              \<not> truthy (groupId (shapes st ! k)))
       \<and> map id_s (shapes (fst (createGroup now st))) = map id_s (shapes st)
       \<and> (\<forall>k \<in> set (shapesToGroup st).
             shapes (fst (createGroup now st)) ! k =
               (shapes st ! k)
                 \<lparr>node_s := (node_s (shapes st ! k))
                    \<lparr>node_x := px (getAbsolutePosition (groups st) (node_s (shapes st ! k)))
                                 - gnode_x (node_g (last (groups (fst (createGroup now st))))),
                     node_y := py (getAbsolutePosition (groups st) (node_s (shapes st ! k)))
                                 - gnode_y (node_g (last (groups (fst (createGroup now st))))),
                     node_draggable := False, node_parent := Some (new_group_id now)\<rparr>,
                  groupId := Some (new_group_id now)\<rparr>)
       \<and> (\<forall>i < length (shapes st).
             i \<notin> set (shapesToGroup st) \<longrightarrow> shapes (fst (createGroup now st)) ! i = shapes st ! i)
       \<and> ((\<forall>s \<in> set (shapes st). groupId s \<noteq> Some (new_group_id now)) \<longrightarrow>
            (\<forall>i < length (shapes st).
               groupId (shapes (fst (createGroup now st)) ! i) = Some (new_group_id now) \<longleftrightarrow>
                 i \<in> set (shapesToGroup st)))
       \<and> gnode_scaleX (node_g (last (groups (fst (createGroup now st))))) = 1
       \<and> gnode_scaleY (node_g (last (groups (fst (createGroup now st))))) = 1
       \<and> hoveredId (fst (createGroup now st)) = hoveredId st"
proof -
  define st' where "st' = fst (createGroup now st)"
  define newId where "newId = new_group_id now"
  define cx where "cx = px (group_center st)"
  define cy where "cy = py (group_center st)"
  have cg: "createGroup now st = createNewGroup now st" using sel ng by (rule createGroup_new)
  note R = createNewGroup_result[OF d two, of now, folded cg, folded st'_def newId_def cx_def cy_def]
  from R(4) obtain b where gs: "groups st' = groups st @ [new_group newId cx cy b]" by blast
  then have lastg: "last (groups st') = new_group newId cx cy b" by simp
  have c3: "groups st' = groups st @ [last (groups st')]" using gs lastg by simp
  have c4: "id_g (last (groups st')) = newId" "gnode_rotation (node_g (last (groups st'))) = 0"
    "gnode_x (node_g (last (groups st'))) = cx" "gnode_y (node_g (last (groups st'))) = cy"
    unfolding lastg by (simp_all add: new_group_def)
  have members: "\<forall>k \<in> set (shapesToGroup st).
             groupId (shapes st' ! k) = Some newId
           \<and> node_parent (node_s (shapes st' ! k)) = Some newId
           \<and> \<not> node_draggable (node_s (shapes st' ! k))
           \<and> node_x (node_s (shapes st' ! k)) =
               px (getAbsolutePosition (groups st) (node_s (shapes st ! k))) - cx
           \<and> node_y (node_s (shapes st' ! k)) =
               py (getAbsolutePosition (groups st) (node_s (shapes st ! k))) - cy
           \<and> (newId \<notin> set (map id_g (groups st)) \<longrightarrow>
                getAbsolutePosition (groups st') (node_s (shapes st' ! k)) =
                getAbsolutePosition (groups st) (node_s (shapes st ! k)))"
  proof
    fix k assume k: "k \<in> set (shapesToGroup st)"
    then have kl: "k < length (shapes st)" by (rule shapesToGroup_props(2))
    have sk: "shapes st' ! k = group_shape (groups st) newId cx cy (shapes st ! k)"
      using createNewGroup_shape_nth[OF d two kl, of now] k
      by (simp add: cg st'_def newId_def cx_def cy_def)
    have f1: "groupId (shapes st' ! k) = Some newId"
      and f2: "node_parent (node_s (shapes st' ! k)) = Some newId"
      and f3: "\<not> node_draggable (node_s (shapes st' ! k))"
      and f4: "node_x (node_s (shapes st' ! k)) =
               px (getAbsolutePosition (groups st) (node_s (shapes st ! k))) - cx"
      and f5: "node_y (node_s (shapes st' ! k)) =
               py (getAbsolutePosition (groups st) (node_s (shapes st ! k))) - cy"
      unfolding sk by (simp_all add: group_shape_def)
    have f6: "newId \<notin> set (map id_g (groups st)) \<longrightarrow>
                getAbsolutePosition (groups st') (node_s (shapes st' ! k)) =
                getAbsolutePosition (groups st) (node_s (shapes st ! k))"
    proof
      assume fr: "newId \<notin> set (map id_g (groups st))"
      show "getAbsolutePosition (groups st') (node_s (shapes st' ! k)) =
                getAbsolutePosition (groups st) (node_s (shapes st ! k))"
        unfolding gs abs_in_new_group(1)[OF fr f2] f4 f5 by simp
    qed
    show "groupId (shapes st' ! k) = Some newId
           \<and> node_parent (node_s (shapes st' ! k)) = Some newId
           \<and> \<not> node_draggable (node_s (shapes st' ! k))
           \<and> node_x (node_s (shapes st' ! k)) =
               px (getAbsolutePosition (groups st) (node_s (shapes st ! k))) - cx
           \<and> node_y (node_s (shapes st' ! k)) =
               py (getAbsolutePosition (groups st) (node_s (shapes st ! k))) - cy
           \<and> (newId \<notin> set (map id_g (groups st)) \<longrightarrow>
                getAbsolutePosition (groups st') (node_s (shapes st' ! k)) =
                getAbsolutePosition (groups st) (node_s (shapes st ! k)))"
      using f1 f2 f3 f4 f5 f6 by blast
  qed
  have m: "cx = sum_list (map (\<lambda>k. node_x (node_s (shapes st ! k))) (shapesToGroup st))
             / real (length (shapesToGroup st))"
    "cy = sum_list (map (\<lambda>k. node_y (node_s (shapes st ! k))) (shapesToGroup st))
             / real (length (shapesToGroup st))"
    unfolding cx_def cy_def by (rule group_center_mean)+
  have who: "\<forall>k. k \<in> set (shapesToGroup st) \<longleftrightarrow>
              k < length (shapes st) \<and> id_s (shapes st ! k) \<in> set (selectedIds st) \<and>
              \<not> truthy (groupId (shapes st ! k))"
    by (auto simp: shapesToGroup_def)
  have ids: "map id_s (shapes st') = map id_s (shapes st)"
    using createNewGroup_ids[OF d two, of now] by (simp add: cg st'_def)
  have nth: "\<And>i. i < length (shapes st) \<Longrightarrow> shapes st' ! i =
      (if i \<in> set (shapesToGroup st) then group_shape (groups st) newId cx cy (shapes st ! i)
       else shapes st ! i)"
    using createNewGroup_shape_nth[OF d two, of _ now]
    by (simp add: cg st'_def newId_def cx_def cy_def)
  have full: "\<forall>k \<in> set (shapesToGroup st).
             shapes st' ! k =
               (shapes st ! k)
                 \<lparr>node_s := (node_s (shapes st ! k))
                    \<lparr>node_x := px (getAbsolutePosition (groups st) (node_s (shapes st ! k))) - cx,
                     node_y := py (getAbsolutePosition (groups st) (node_s (shapes st ! k))) - cy,
                     node_draggable := False, node_parent := Some newId\<rparr>,
                  groupId := Some newId\<rparr>"
    using nth shapesToGroup_props(2)[of _ st] by (simp add: group_shape_def)
  have frame: "\<forall>i < length (shapes st). i \<notin> set (shapesToGroup st) \<longrightarrow> shapes st' ! i = shapes st ! i"
    using nth by simp
  have iff: "(\<forall>s \<in> set (shapes st). groupId s \<noteq> Some newId) \<longrightarrow>
            (\<forall>i < length (shapes st).
               groupId (shapes st' ! i) = Some newId \<longleftrightarrow> i \<in> set (shapesToGroup st))"
  proof (intro impI allI)
    fix i
    assume un: "\<forall>s \<in> set (shapes st). groupId s \<noteq> Some newId" and i: "i < length (shapes st)"
    then have "groupId (shapes st ! i) \<noteq> Some newId" by simp
    then show "groupId (shapes st' ! i) = Some newId \<longleftrightarrow> i \<in> set (shapesToGroup st)"
      using nth[OF i] by (simp add: group_shape_def)
  qed
  have sc: "gnode_scaleX (node_g (last (groups st'))) = 1" "gnode_scaleY (node_g (last (groups st'))) = 1"
    unfolding lastg by (simp_all add: new_group_def)
  have hv: "hoveredId st' = hoveredId st"
    using createNewGroup_hover[of 200 st] createNewGroup_hover[of now st] by (simp add: cg st'_def)
  show ?thesis
    using R(1) R(2) c3 c4 members who ids full frame iff sc hv
    unfolding st'_def[symmetric] newId_def[symmetric] m[symmetric] c4(3,4)
    by blast
qed

theorem new_group_from_ungrouped_witness:
  "distinct (map id_s (shapes three_loose))
   \<and> shapesToGroup three_loose = [0, 1]
   \<and> selectedGroups three_loose = []
   \<and> snd (createGroup 200 three_loose) = None
   \<and> selectedIds (fst (createGroup 200 three_loose)) = [''group-200'']
   \<and> gnode_rotation (node_g (last (groups (fst (createGroup 200 three_loose))))) = 0
   \<and> gnode_x (node_g (last (groups (fst (createGroup 200 three_loose))))) = 200
   \<and> gnode_y (node_g (last (groups (fst (createGroup 200 three_loose))))) = 300
   \<and> shapes (fst (createGroup 200 three_loose)) ! 0 = ex_rect ''rect-101'' (- 100) (- 100) (Some ''group-200'')
   \<and> getAbsolutePosition (groups (fst (createGroup 200 three_loose)))
        (node_s (shapes (fst (createGroup 200 three_loose)) ! 0)) = \<lparr>px = 100, py = 200\<rparr>
   \<and> shapes (fst (createGroup 200 three_loose)) ! 2 = ex_rect ''rect-104'' 700 500 None
   \<and> groupId (shapes (fst (createGroup 200 three_loose)) ! 2) \<noteq> Some ''group-200''
   \<and> map id_s (shapes (fst (createGroup 200 three_loose))) = [''rect-101'', ''circle-102'', ''rect-104'']"
proof -
  define st' where "st' = fst (createGroup 200 three_loose)"
  have a1: "distinct (map id_s (shapes three_loose))" by (simp add: scene_simps)
  have a2: "2 \<le> length (selectedIds three_loose)" by (simp add: scene_simps)
  have a3: "shapesToGroup three_loose = [0, 1]" by (simp add: scene_simps selection_simps)
  have a3': "2 \<le> length (shapesToGroup three_loose)" by (simp add: a3)
  have a4: "selectedGroups three_loose = []" by (simp add: scene_simps selection_simps)
  have a4': "length (selectedGroups three_loose) \<noteq> 1" by (simp add: a4)
  have id: "new_group_id 200 = ''group-200''"
    by (simp add: new_group_id_def string_of_nat.simps digit_char_def)
  have fresh: "''group-200'' \<notin> set (map id_g (groups three_loose))" by (simp add: scene_simps)
  have unused: "\<forall>s \<in> set (shapes three_loose). groupId s \<noteq> Some ''group-200''"
    by (simp add: scene_simps)
  have len: "length (shapes three_loose) = 3" by (simp add: scene_simps)
  have p0: "getAbsolutePosition (groups three_loose) (node_s (shapes three_loose ! 0)) = \<lparr>px = 100, py = 200\<rparr>"
    by (simp add: scene_simps getAbsolutePosition_def parent_group_def position_def)
  have xs: "node_x (node_s (shapes three_loose ! 0)) = 100" "node_x (node_s (shapes three_loose ! Suc 0)) = 300"
    "node_y (node_s (shapes three_loose ! 0)) = 200" "node_y (node_s (shapes three_loose ! Suc 0)) = 400"
    by (simp_all add: scene_simps)
  have s0: "shapes three_loose ! 0 = ex_rect ''rect-101'' 100 200 None"
    and s2: "shapes three_loose ! 2 = ex_rect ''rect-104'' 700 500 None"
    and ids0: "map id_s (shapes three_loose) = [''rect-101'', ''circle-102'', ''rect-104'']"
    by (simp_all add: scene_simps)
  note T = new_group_from_ungrouped[OF a1 a2 a3' a4', of 200, folded st'_def, unfolded a3 id len]
  have t1: "snd (createGroup 200 three_loose) = None" using T by (rule conjunct1)
  have t2: "selectedIds st' = [''group-200'']" using T by blast
  have t3: "gnode_rotation (node_g (last (groups st'))) = 0" using T by blast
  have t4: "gnode_x (node_g (last (groups st'))) =
              sum_list (map (\<lambda>k. node_x (node_s (shapes three_loose ! k))) [0, 1]) / real (length [0::nat, 1])"
    using T by blast
  have t5: "gnode_y (node_g (last (groups st'))) =
              sum_list (map (\<lambda>k. node_y (node_s (shapes three_loose ! k))) [0, 1]) / real (length [0::nat, 1])"
    using T by blast
  have gx: "gnode_x (node_g (last (groups st'))) = 200" unfolding t4 by (simp add: xs)
  have gy: "gnode_y (node_g (last (groups st'))) = 300" unfolding t5 by (simp add: xs)
  have t6: "\<forall>k \<in> set [0::nat, 1].
             groupId (shapes st' ! k) = Some ''group-200''
           \<and> node_parent (node_s (shapes st' ! k)) = Some ''group-200''
           \<and> \<not> node_draggable (node_s (shapes st' ! k))
           \<and> node_x (node_s (shapes st' ! k)) =
               px (getAbsolutePosition (groups three_loose) (node_s (shapes three_loose ! k)))
                 - gnode_x (node_g (last (groups st')))
           \<and> node_y (node_s (shapes st' ! k)) =
               py (getAbsolutePosition (groups three_loose) (node_s (shapes three_loose ! k)))
                 - gnode_y (node_g (last (groups st')))
           \<and> (''group-200'' \<notin> set (map id_g (groups three_loose)) \<longrightarrow>
                getAbsolutePosition (groups st') (node_s (shapes st' ! k)) =
                getAbsolutePosition (groups three_loose) (node_s (shapes three_loose ! k)))"
    using T by blast
  have ab: "getAbsolutePosition (groups st') (node_s (shapes st' ! 0)) = \<lparr>px = 100, py = 200\<rparr>"
    using t6 fresh by (simp add: p0)
  have t7: "\<forall>k \<in> set [0::nat, 1].
             shapes st' ! k =
               (shapes three_loose ! k)
                 \<lparr>node_s := (node_s (shapes three_loose ! k))
                    \<lparr>node_x := px (getAbsolutePosition (groups three_loose) (node_s (shapes three_loose ! k)))
                                 - gnode_x (node_g (last (groups st'))),
                     node_y := py (getAbsolutePosition (groups three_loose) (node_s (shapes three_loose ! k)))
                                 - gnode_y (node_g (last (groups st'))),
                     node_draggable := False, node_parent := Some ''group-200''\<rparr>,
                  groupId := Some ''group-200''\<rparr>"
    using T by blast
  have t70: "shapes st' ! 0 =
               (shapes three_loose ! 0)
                 \<lparr>node_s := (node_s (shapes three_loose ! 0))
                    \<lparr>node_x := px (getAbsolutePosition (groups three_loose) (node_s (shapes three_loose ! 0)))
                                 - gnode_x (node_g (last (groups st'))),
                     node_y := py (getAbsolutePosition (groups three_loose) (node_s (shapes three_loose ! 0)))
                                 - gnode_y (node_g (last (groups st'))),
                     node_draggable := False, node_parent := Some ''group-200''\<rparr>,
                  groupId := Some ''group-200''\<rparr>"
    using t7 by simp
  have f0: "shapes st' ! 0 = ex_rect ''rect-101'' (- 100) (- 100) (Some ''group-200'')"
    unfolding t70 p0 gx gy unfolding s0 by (simp add: ex_rect_def)
  have t8: "\<forall>i < 3. i \<notin> set [0::nat, 1] \<longrightarrow> shapes st' ! i = shapes three_loose ! i"
    using T by blast
  have f2: "shapes st' ! 2 = ex_rect ''rect-104'' 700 500 None" using t8 s2 by simp
  have t9: "(\<forall>s \<in> set (shapes three_loose). groupId s \<noteq> Some ''group-200'') \<longrightarrow>
            (\<forall>i < 3. groupId (shapes st' ! i) = Some ''group-200'' \<longleftrightarrow> i \<in> set [0::nat, 1])"
    using T by blast
  have n2: "groupId (shapes st' ! 2) \<noteq> Some ''group-200''" using t9 unused by simp
  have t10: "map id_s (shapes st') = map id_s (shapes three_loose)" using T by blast
  have i3: "map id_s (shapes st') = [''rect-101'', ''circle-102'', ''rect-104'']"
    using t10 ids0 by simp
  show ?thesis using a1 a3 a4 t1 t2 t3 gx gy f0 ab f2 n2 i3 unfolding st'_def by blast
qed
text \<open>
  C1. Grouping at least two selected ungrouped shapes and ungrouping the resulting group
  at once raises no alert, leaves the groups as they were, and gives every one of these
  shapes the absolute position and the absolute rotation it had before, with no group
  and the layer as parent again. Numbers are real numbers here, so the values are equal
  rather than equal up to rounding. (Shape ids are distinct, the new group id is unused,
  and an ungrouped shape hangs off the layer.)
\<close>

theorem group_ungroup_round_trip:
  assumes d: "distinct (map id_s (shapes st))"
    and sel: "2 \<le> length (selectedIds st)"
    and two: "2 \<le> length (shapesToGroup st)"
    and ng: "length (selectedGroups st) \<noteq> 1"
    and fresh: "new_group_id now \<notin> set (map id_g (groups st))"
    and unused: "\<forall>s \<in> set (shapes st). groupId s \<noteq> Some (new_group_id now)"
    and root: "\<forall>k \<in> set (shapesToGroup st). node_parent (node_s (shapes st ! k)) = None"
  shows "snd (createGroup now st) = None
       \<and> snd (ungroup (fst (createGroup now st))) = None
       \<and> groups (fst (ungroup (fst (createGroup now st)))) = groups st
       \<and> (\<forall>k \<in> set (shapesToGroup st).
            getAbsolutePosition (groups (fst (ungroup (fst (createGroup now st)))))
               (node_s (shapes (fst (ungroup (fst (createGroup now st)))) ! k))
              = getAbsolutePosition (groups st) (node_s (shapes st ! k))
          \<and> getAbsoluteRotation (groups (fst (ungroup (fst (createGroup now st)))))
               (node_s (shapes (fst (ungroup (fst (createGroup now st)))) ! k))
              = getAbsoluteRotation (groups st) (node_s (shapes st ! k))
          \<and> groupId (shapes (fst (ungroup (fst (createGroup now st)))) ! k) = None
          \<and> node_parent (node_s (shapes (fst (ungroup (fst (createGroup now st)))) ! k)) = None)"
proof -
  define st1 where "st1 = fst (createGroup now st)"
  define st2 where "st2 = fst (ungroup st1)"
  define newId where "newId = new_group_id now"
  define cx where "cx = px (group_center st)"
  define cy where "cy = py (group_center st)"
  define ks where "ks = shapesToGroup st"
  define n where "n = length (shapes st)"
  have cg: "createGroup now st = createNewGroup now st" using sel ng by (rule createGroup_new)
  note R = createNewGroup_result[OF d two, of now, folded cg, folded st1_def newId_def cx_def cy_def]
  from R(4) obtain b where gs1: "groups st1 = groups st @ [new_group newId cx cy b]" by blast
  define g where "g = new_group newId cx cy b"
  have idg: "id_g g = newId" "gnode_rotation (node_g g) = 0" by (simp_all add: g_def new_group_def)
  have fresh': "newId \<notin> set (map id_g (groups st))" using fresh by (simp add: newId_def)
  have ids1: "map id_s (shapes st1) = map id_s (shapes st)"
    using createNewGroup_ids[OF d two, of now] by (simp add: cg st1_def)
  then have len1: "length (shapes st1) = n" unfolding n_def by (metis length_map)
  have d1: "distinct (map id_s (shapes st1))" using ids1 d by simp
  have nth1: "\<And>i. i < n \<Longrightarrow> shapes st1 ! i =
      (if i \<in> set ks then group_shape (groups st) newId cx cy (shapes st ! i) else shapes st ! i)"
    using createNewGroup_shape_nth[OF d two, of _ now]
    by (simp add: cg st1_def newId_def cx_def cy_def ks_def n_def)
  have ksn: "\<And>k. k \<in> set ks \<Longrightarrow> k < n" and dks: "distinct ks"
    unfolding ks_def n_def by (simp_all add: shapesToGroup_props)
  have member: "\<And>i. i < n \<Longrightarrow> groupId (shapes st1 ! i) = Some newId \<longleftrightarrow> i \<in> set ks"
  proof -
    fix i assume i: "i < n"
    then have "shapes st ! i \<in> set (shapes st)" by (simp add: n_def)
    then have "groupId (shapes st ! i) \<noteq> Some newId" using unused by (simp add: newId_def)
    then show "groupId (shapes st1 ! i) = Some newId \<longleftrightarrow> i \<in> set ks"
      using nth1[OF i] by (simp add: group_shape_def)
  qed
  have gsh: "filter (\<lambda>k. groupId (shapes st1 ! k) = Some newId) [0..<length (shapes st1)] = ks"
  proof -
    have "filter (\<lambda>k. groupId (shapes st1 ! k) = Some newId) [0..<n] =
          filter (\<lambda>k. id_s (shapes st ! k) \<in> set (selectedIds st) \<and>
                      \<not> truthy (groupId (shapes st ! k))) [0..<n]"
    proof (rule filter_cong[OF refl])
      fix k assume "k \<in> set [0..<n]"
      then have kn: "k < n" by simp
      show "(groupId (shapes st1 ! k) = Some newId) =
            (id_s (shapes st ! k) \<in> set (selectedIds st) \<and> \<not> truthy (groupId (shapes st ! k)))"
        using member[OF kn] kn by (simp add: ks_def shapesToGroup_def n_def)
    qed
    then show ?thesis unfolding len1 by (simp add: ks_def shapesToGroup_def n_def)
  qed
  have s1: "selectedIds st1 = [newId]" using R(2) .
  have f1: "find_group (groups st1) newId = Some g"
    unfolding gs1 by (simp add: find_group_append_fresh[OF fresh'] g_def new_group_def)
  note U = ungroup_result[OF s1 f1 d1, folded st2_def, unfolded gsh]
  have g2: "groups st2 = groups st"
    unfolding U(3) gs1 by (rule filter_fresh_group[OF fresh']) (simp add: new_group_def)
  have len1': "\<And>k. k < n \<Longrightarrow> k < length (shapes st1)" using len1 by simp
  have members: "\<forall>k \<in> set ks.
            getAbsolutePosition (groups st2) (node_s (shapes st2 ! k))
              = getAbsolutePosition (groups st) (node_s (shapes st ! k))
          \<and> getAbsoluteRotation (groups st2) (node_s (shapes st2 ! k))
              = getAbsoluteRotation (groups st) (node_s (shapes st ! k))
          \<and> groupId (shapes st2 ! k) = None
          \<and> node_parent (node_s (shapes st2 ! k)) = None"
  proof
    fix k assume k: "k \<in> set ks"
    have kn: "k < n" using k by (rule ksn)
    have r0: "node_parent (node_s (shapes st ! k)) = None" using root k by (simp add: ks_def)
    have sk1: "shapes st1 ! k = group_shape (groups st) newId cx cy (shapes st ! k)"
      using nth1[OF kn] k by simp
    have p1: "node_parent (node_s (shapes st1 ! k)) = Some newId"
      unfolding sk1 by (simp add: group_shape_def)
    have a1: "getAbsolutePosition (groups st1) (node_s (shapes st1 ! k)) = position (node_s (shapes st ! k))"
      unfolding gs1 abs_in_new_group(1)[OF fresh' p1]
      unfolding sk1 by (simp add: group_shape_def abs_at_root(1)[OF r0] position_def)
    have sk2: "shapes st2 ! k = ungroup_shape (groups st1) g (shapes st1 ! k)"
      unfolding U(2) using foldl_pointwise_nth[OF dks len1'[OF kn]] k by simp
    have rot1: "node_rotation (node_s (shapes st1 ! k)) = node_rotation (node_s (shapes st ! k))"
      unfolding sk1 by (simp add: group_shape_def)
    have q1: "node_parent (node_s (shapes st2 ! k)) = None" and q2: "groupId (shapes st2 ! k) = None"
      and q3: "position (node_s (shapes st2 ! k)) = position (node_s (shapes st ! k))"
      and q4: "node_rotation (node_s (shapes st2 ! k)) = node_rotation (node_s (shapes st ! k))"
      unfolding sk2 by (simp_all add: ungroup_shape_def a1 position_def rot1 idg)
    show "getAbsolutePosition (groups st2) (node_s (shapes st2 ! k))
              = getAbsolutePosition (groups st) (node_s (shapes st ! k))
          \<and> getAbsoluteRotation (groups st2) (node_s (shapes st2 ! k))
              = getAbsoluteRotation (groups st) (node_s (shapes st ! k))
          \<and> groupId (shapes st2 ! k) = None
          \<and> node_parent (node_s (shapes st2 ! k)) = None"
      by (simp add: abs_at_root[OF q1] abs_at_root[OF r0] q1 q2 q3 q4)
  qed
  show ?thesis
    using R(1) U(1) g2 members unfolding st2_def st1_def ks_def by blast
qed

theorem group_ungroup_round_trip_witness:
  "distinct (map id_s (shapes two_loose))
   \<and> shapesToGroup two_loose = [0, 1]
   \<and> selectedGroups two_loose = []
   \<and> snd (createGroup 200 two_loose) = None
   \<and> snd (ungroup (fst (createGroup 200 two_loose))) = None
   \<and> groups (fst (ungroup (fst (createGroup 200 two_loose)))) = []
   \<and> getAbsolutePosition (groups (fst (ungroup (fst (createGroup 200 two_loose)))))
        (node_s (shapes (fst (ungroup (fst (createGroup 200 two_loose)))) ! 0)) = \<lparr>px = 100, py = 200\<rparr>
   \<and> getAbsoluteRotation (groups (fst (ungroup (fst (createGroup 200 two_loose)))))
        (node_s (shapes (fst (ungroup (fst (createGroup 200 two_loose)))) ! 0)) = 0"
proof -
  define st2 where "st2 = fst (ungroup (fst (createGroup 200 two_loose)))"
  have a1: "distinct (map id_s (shapes two_loose))" by (simp add: scene_simps)
  have a2: "2 \<le> length (selectedIds two_loose)" by (simp add: scene_simps)
  have a3: "shapesToGroup two_loose = [0, 1]" by (simp add: scene_simps selection_simps)
  have a3': "2 \<le> length (shapesToGroup two_loose)" by (simp add: a3)
  have a4: "selectedGroups two_loose = []" by (simp add: scene_simps selection_simps)
  have a4': "length (selectedGroups two_loose) \<noteq> 1" by (simp add: a4)
  have a5: "new_group_id 200 \<notin> set (map id_g (groups two_loose))" by (simp add: scene_simps)
  have a6: "\<forall>s \<in> set (shapes two_loose). groupId s \<noteq> Some (new_group_id 200)"
    by (simp add: scene_simps)
  have a7: "\<forall>k \<in> set (shapesToGroup two_loose). node_parent (node_s (shapes two_loose ! k)) = None"
    unfolding a3 by (simp add: scene_simps)
  have p: "getAbsolutePosition (groups two_loose) (node_s (shapes two_loose ! 0)) = \<lparr>px = 100, py = 200\<rparr>"
    "getAbsoluteRotation (groups two_loose) (node_s (shapes two_loose ! 0)) = 0"
    by (simp_all add: scene_simps getAbsolutePosition_def getAbsoluteRotation_def parent_group_def position_def)
  have p4: "groups two_loose = []" by (simp add: scene_simps)
  note T = group_ungroup_round_trip[OF a1 a2 a3' a4' a5 a6 a7, folded st2_def, unfolded a3]
  have t1: "snd (createGroup 200 two_loose) = None" using T by (rule conjunct1)
  have t2: "snd (ungroup (fst (createGroup 200 two_loose))) = None" using T by blast
  have t3: "groups st2 = groups two_loose" using T by blast
  have t4: "\<forall>k \<in> set [0::nat, 1].
            getAbsolutePosition (groups st2) (node_s (shapes st2 ! k))
              = getAbsolutePosition (groups two_loose) (node_s (shapes two_loose ! k))
          \<and> getAbsoluteRotation (groups st2) (node_s (shapes st2 ! k))
              = getAbsoluteRotation (groups two_loose) (node_s (shapes two_loose ! k))
          \<and> groupId (shapes st2 ! k) = None
          \<and> node_parent (node_s (shapes st2 ! k)) = None"
    using T by blast
  have t40: "getAbsolutePosition (groups st2) (node_s (shapes st2 ! 0))
              = getAbsolutePosition (groups two_loose) (node_s (shapes two_loose ! 0))
          \<and> getAbsoluteRotation (groups st2) (node_s (shapes st2 ! 0))
              = getAbsoluteRotation (groups two_loose) (node_s (shapes two_loose ! 0))
          \<and> groupId (shapes st2 ! 0) = None
          \<and> node_parent (node_s (shapes st2 ! 0)) = None"
    using t4 by (rule bspec) simp
  have m: "getAbsolutePosition (groups st2) (node_s (shapes st2 ! 0)) = \<lparr>px = 100, py = 200\<rparr>"
    "getAbsoluteRotation (groups st2) (node_s (shapes st2 ! 0)) = 0"
    using t40 unfolding p by simp_all
  have g: "groups st2 = []" using t3 p4 by simp
  show ?thesis using a1 a3 a4 t1 t2 g m unfolding st2_def by blast
qed




text \<open>
  C2. The claim that no group is ever left with fewer than two members fails on the
  code. With a group of three rectangles, a group of two circles, and the circle group
  and two of the rectangles selected, \<open>createGroup\<close> moves the two rectangles into the
  circle group: the count that decides whether to dissolve the old group is taken on
  \<open>shapes\<close>, where it stays 3, so the old group survives with the third rectangle as its
  only member.
\<close>

theorem group_left_with_one_member:
  "snd (createGroup 200 (two_groups_scene [''group-107'', ''rect-101'', ''rect-102''])) = None
   \<and> map id_g (groups (fst (createGroup 200 (two_groups_scene [''group-107'', ''rect-101'', ''rect-102'']))))
       = [''group-104'', ''group-107'']
   \<and> map groupId (shapes (fst (createGroup 200 (two_groups_scene [''group-107'', ''rect-101'', ''rect-102'']))))
       = [Some ''group-107'', Some ''group-107'', Some ''group-104'', Some ''group-107'', Some ''group-107'']"
proof -
  define A where "A = two_groups_scene [''group-107'', ''rect-101'', ''rect-102'']"
  define G where "G = ex_group ''group-107'' 800 600"
  have a1: "distinct (map id_s (shapes A))" by (simp add: A_def scene_simps)
  have a2: "2 \<le> length (selectedIds A)" by (simp add: A_def scene_simps)
  have a3: "selectedGroups A = [G]" by (simp add: A_def G_def scene_simps selection_simps)
  have a5: "selectedShapes A = [0, 1, 3, 4]" by (simp add: A_def scene_simps selection_simps)
  have a6: "shapesToAdd A G = [0, 1]"
    by (simp add: shapesToAdd_def a5) (simp add: A_def G_def scene_simps selection_simps)
  have a7: "\<exists>k \<in> set (selectedShapes A). not_member_of G (shapes A ! k)"
    unfolding a5 by (simp add: A_def G_def scene_simps selection_simps)
  have a8: "map groupId (shapes A) =
      [Some ''group-104'', Some ''group-104'', Some ''group-104'', Some ''group-107'', Some ''group-107'']"
    "map id_g (groups A) = [''group-104'', ''group-107'']" "id_g G = ''group-107''"
    by (simp_all add: A_def G_def scene_simps)
  have cg: "snd (createGroup 200 A) = None"
    using createGroup_merges[OF a2 a3 a7, of 200] by simp
  have "(map groupId (shapes (fst (createGroup 200 A))), map id_g (groups (fst (createGroup 200 A)))) =
      ([Some ''group-107'', Some ''group-107'', Some ''group-104'', Some ''group-107'', Some ''group-107''],
       [''group-104'', ''group-107''])"
    unfolding merge_view[OF a1 a2 a3 a7, of 200] a6 a8
    by (simp add: gid_step_def dissolves_def truthy_def)
  then show ?thesis using cg unfolding A_def by simp
qed

text \<open>
  C9. After a \<open>createGroup\<close> that is rejected (here one ungrouped rectangle is selected),
  \<open>handleGroupButton\<close> has set the button text to \<open>Ungroup\<close>, while the text computed
  from the selection by the registered callback is \<open>Create Group\<close>.
\<close>

theorem group_button_after_rejected_createGroup:
  "handleGroupButton 200 (merge_scene [''rect-104'']) =
     (merge_scene [''rect-104''], Some ''Please select at least 2 shapes to group'', ''Ungroup'')
   \<and> updateGroupButton (merge_scene [''rect-104'']) = ''Create Group''"
proof -
  have s: "selectedIds (merge_scene [''rect-104'']) = [''rect-104'']"
    "map id_g (groups (merge_scene [''rect-104''])) = [''group-103'']"
    by (simp_all add: scene_simps)
  have n: "\<not> (\<exists>g \<in> set (groups (merge_scene [''rect-104''])). id_g g = ''rect-104'')"
    by (simp add: scene_simps)
  have c: "createGroup 200 (merge_scene [''rect-104'']) =
      (merge_scene [''rect-104''], Some ''Please select at least 2 shapes to group'')"
    by (simp add: createGroup_def s)
  show ?thesis using n c by (simp add: handleGroupButton_def updateGroupButton_def s)
qed

text \<open>
  C7. The background is not the bounding box when every outline point of the members
  has a negative coordinate. Adding a rectangle to a group whose members all lie at
  negative local coordinates leaves outline points with x between -960 and -140; the
  background gets \<open>x = -960\<close>, but its width is \<open>Number.MIN_VALUE + 960\<close> rather than
  \<open>-140 - (-960)\<close>, because the running maximum starts at \<open>Number.MIN_VALUE\<close>, the
  smallest positive number.
\<close>

theorem background_with_negative_members:
  "snd (createGroup 200 negative_scene) = None
   \<and> shapes (fst (createGroup 200 negative_scene)) =
        [ex_rect ''rect-101'' (-300) (-300) (Some ''group-103''),
         ex_circle ''circle-102'' (-200) (-200) (Some ''group-103''),
         ex_rect ''rect-104'' (-900) (-900) (Some ''group-103'')]
   \<and> Max (set (map px (concat (map outlinePoints (shapes (fst (createGroup 200 negative_scene))))))) = - 140
   \<and> Min (set (map px (concat (map outlinePoints (shapes (fst (createGroup 200 negative_scene))))))) = - 960
   \<and> map backgroundNode (groups (fst (createGroup 200 negative_scene))) =
        [\<lparr>bg_x = - 960, bg_y = - 935, bg_width = MIN_VALUE + 960, bg_height = MIN_VALUE + 935\<rparr>]
   \<and> MIN_VALUE + 960 \<noteq> - 140 - (- 960)"
proof -
  define G where "G = ex_group ''group-103'' 1000 1000"
  have a2: "2 \<le> length (selectedIds negative_scene)" by (simp add: negative_scene_def)
  have a3: "selectedGroups negative_scene = [G]"
    by (simp add: negative_scene_def G_def scene_simps selection_simps)
  have a5: "selectedShapes negative_scene = [0, 1, 2]"
    by (simp add: negative_scene_def scene_simps selection_simps)
  have a6: "shapesToAdd negative_scene G = [2]"
    by (simp add: shapesToAdd_def a5) (simp add: negative_scene_def G_def scene_simps selection_simps)
  have a7: "\<exists>k \<in> set (selectedShapes negative_scene). not_member_of G (shapes negative_scene ! k)"
    unfolding a5 by (simp add: negative_scene_def G_def scene_simps selection_simps)
  have cg: "createGroup 200 negative_scene =
      ((addShapesToGroup G [2] negative_scene)\<lparr>selectedIds := [id_g G]\<rparr>, None)"
    using createGroup_merges[OF a2 a3 a7, of 200] by (simp add: a6)
  have sh: "shapes (fst (createGroup 200 negative_scene)) =
        [ex_rect ''rect-101'' (-300) (-300) (Some ''group-103''),
         ex_circle ''circle-102'' (-200) (-200) (Some ''group-103''),
         ex_rect ''rect-104'' (-900) (-900) (Some ''group-103'')]"
    unfolding cg by (simp add: addShapesToGroup_def Let_def negative_scene_step[folded G_def])
  have flt: "filter (\<lambda>shape. groupId shape = Some (id_g G))
        [ex_rect ''rect-101'' (-300) (-300) (Some ''group-103''),
         ex_circle ''circle-102'' (-200) (-200) (Some ''group-103''),
         ex_rect ''rect-104'' (-900) (-900) (Some ''group-103'')] =
        [ex_rect ''rect-101'' (-300) (-300) (Some ''group-103''),
         ex_circle ''circle-102'' (-200) (-200) (Some ''group-103''),
         ex_rect ''rect-104'' (-900) (-900) (Some ''group-103'')]"
    by (simp add: G_def scene_simps)
  have g1: "groups (addShapesToGroup G [2] negative_scene) =
      replace_group (updateGroupBoundingBox G (filter (\<lambda>shape. groupId shape = Some (id_g G))
        [ex_rect ''rect-101'' (-300) (-300) (Some ''group-103''),
         ex_circle ''circle-102'' (-200) (-200) (Some ''group-103''),
         ex_rect ''rect-104'' (-900) (-900) (Some ''group-103'')])) [G]"
    by (simp add: addShapesToGroup_def Let_def negative_scene_step[folded G_def] negative_scene_pending[folded G_def] del: filter.simps)
  have idu: "\<And>ss. id_g (updateGroupBoundingBox G ss) = id_g G"
    by (simp add: updateGroupBoundingBox_def Let_def)
  have gr: "map backgroundNode (groups (fst (createGroup 200 negative_scene))) =
        [\<lparr>bg_x = - 960, bg_y = - 935, bg_width = MIN_VALUE + 960, bg_height = MIN_VALUE + 935\<rparr>]"
  proof -
    have "groups (fst (createGroup 200 negative_scene)) = groups (addShapesToGroup G [2] negative_scene)"
      unfolding cg by simp
    also have "\<dots> = replace_group (updateGroupBoundingBox G
        [ex_rect ''rect-101'' (-300) (-300) (Some ''group-103''),
         ex_circle ''circle-102'' (-200) (-200) (Some ''group-103''),
         ex_rect ''rect-104'' (-900) (-900) (Some ''group-103'')]) [G]"
      unfolding g1 flt ..
    finally show ?thesis by (simp add: replace_group_def idu negative_scene_background[folded G_def])
  qed
  have mx: "Max (set (map px (concat (map outlinePoints (shapes (fst (createGroup 200 negative_scene))))))) = - 140"
    unfolding sh by (simp add: outlinePoints_def position_def scene_simps Let_def)
  have mn: "Min (set (map px (concat (map outlinePoints (shapes (fst (createGroup 200 negative_scene))))))) = - 960"
    unfolding sh by (simp add: outlinePoints_def position_def scene_simps Let_def)
  have ne: "MIN_VALUE + 960 \<noteq> - 140 - (- 960)" using MIN_VALUE_pos by simp
  show ?thesis using cg sh gr mx mn ne by simp
qed
end
